theory Spec2Isabelle
  imports Main "HOL-Library.Word"
begin

section \<open>The block locator of \<open>decrypt.c\<close>\<close>

text \<open>
  A shallow embedding of \<open>src/decrypt.c\<close> and \<open>src/error_handling.c\<close>. Every function
  of the C source becomes a HOL function that returns the list of library calls it made
  (its trace) together with the way it ended: it returned a value, it called \<open>exit\<close>, or
  it left the behaviour defined by the C language. The scanning loop may run forever, so the
  functions that contain it return an \<open>option\<close>, \<open>None\<close> standing for a run that never ends.
  The \<open>DEBUG_PRINT\<close> macro calls are not modelled.
\<close>

subsection \<open>Data\<close>

type_synonym byte = "8 word"

text \<open>The two padding constants handed to \<open>RSA_private_decrypt\<close>.\<close>

datatype padding = RSA_NO_PADDING | RSA_PKCS1_OAEP_PADDING

text \<open>The two digest selectors handed to \<open>_hash_individual_block\<close>.\<close>

datatype hash_id = BLOCK_HASH | CHALLENGE_HASH

text \<open>
  An \<open>RSA*\<close> key as the code uses it: \<open>RSA_size\<close> and \<open>RSA_private_decrypt\<close>. The latter
  takes the padding and the \<open>flen\<close> input bytes; \<open>None\<close> is a negative return value,
  \<open>Some d\<close> the bytes stored through \<open>to\<close>, their number being the return value.
\<close>

record RSA =
  RSA_size :: nat
  RSA_private_decrypt :: "padding \<Rightarrow> byte list \<Rightarrow> byte list option"

text \<open>
  What the source takes from headers and libraries that are not part of the sources:
  the constants \<open>_CHALLENGE_SIZE\<close>, \<open>_AUTH_SIZE\<close> and \<open>_BLOCK_HASH_SIZE\<close>, the helper
  \<open>_hash_individual_block\<close> (the contents of its output buffer), the helper
  \<open>_get_file_size\<close>, the file system seen by \<open>fopen\<close>, and OpenSSL's \<open>RSA_new\<close> and
  \<open>PEM_read_RSAPrivateKey\<close>. They are parameters of the model.
\<close>

record env =
  CHALLENGE_SIZE :: nat
  AUTH_SIZE :: nat
  BLOCK_HASH_SIZE :: nat
  hash_individual_block :: "hash_id \<Rightarrow> byte list \<Rightarrow> byte list"
  get_file_size :: "string \<Rightarrow> nat"
  files :: "string \<Rightarrow> byte list option"
  RSA_new_ok :: bool
  PEM_read_RSAPrivateKey :: "byte list \<Rightarrow> string \<Rightarrow> RSA option"

text \<open>An open \<open>FILE*\<close>: the name it was opened with, the bytes of the file, the cursor.\<close>

record FILE =
  path :: string
  contents :: "byte list"
  pos :: nat

text \<open>
  The text handed to \<open>printf\<close>: a string literal of the source (without its final newline),
  or the \<open>snprintf\<close> of a format with one \<open>%i\<close> argument.
\<close>

datatype message = Literal string | Formatted string nat

text \<open>The messages of \<open>decrypt.c\<close>.\<close>

definition msg_fast_flag :: message where
  "msg_fast_flag = Literal ''[ERROR] Could not read 'fast' flag from encrypted file header.''"

definition msg_challenge :: message where
  "msg_challenge = Literal ''[ERROR] Could not read challenge from encrypted file header.''"

definition msg_auth :: message where
  "msg_auth = Literal ''[ERROR] Could not read auth from encrypted file header. Make sure the 'fast' flag is properly set.''"

definition msg_open :: message where
  "msg_open = Literal ''[ERROR] Could not open the encrypted file.''"

definition msg_not_found :: message where
  "msg_not_found = Literal ''[ERROR] RSA block could not be found.''"

definition msg_block_size :: "nat \<Rightarrow> message" where
  "msg_block_size block_size' = Formatted ''[ERROR] block_size %i must be a power of 2.'' block_size'"

definition msg_key :: message where
  "msg_key = Literal ''[ERROR] Could not open private key file.''"

definition msg_empty :: message where
  "msg_empty = Literal []"

text \<open>The library calls that the trace records.\<close>

datatype event =
    Ev_get_file_size string
  | Ev_RSA_new
  | Ev_fopen string
  | Ev_PEM_read_RSAPrivateKey string
  | Ev_fclose string
  | Ev_RSA_free
  | Ev_BN_clear_free
  | Ev_printf message
  | Ev_ftell string
  | Ev_fseek string nat
  | Ev_fread string nat nat
  | Ev_RSA_private_decrypt padding "byte list"

text \<open>Behaviour that the C language leaves undefined and that the source can reach.\<close>

datatype undefined_behaviour =
    Buffer_overflow
  | Division_by_zero
  | Null_pointer
  | No_return_value

text \<open>How a call ends: it returns, the process exits with a status, or anything may happen.\<close>

datatype 'a outcome = Returned 'a | Exited nat | Undefined undefined_behaviour

type_synonym 'a run = "(event list \<times> 'a outcome) option"

text \<open>
  Sequencing of two pieces of code: the second runs only when the first returned, and the
  traces are joined.
\<close>

definition seq :: "'a run \<Rightarrow> ('a \<Rightarrow> 'b run) \<Rightarrow> 'b run" where
  "seq m f =
     (case m of
        None \<Rightarrow> None
      | Some (t, Returned v) \<Rightarrow>
          (case f v of None \<Rightarrow> None | Some (t', r) \<Rightarrow> Some (t @ t', r))
      | Some (t, Exited n) \<Rightarrow> Some (t, Exited n)
      | Some (t, Undefined u) \<Rightarrow> Some (t, Undefined u))"

definition call :: "event list \<Rightarrow> 'a \<Rightarrow> 'a run" where
  "call evs v = Some (evs, Returned v)"

definition skip :: "unit run" where
  "skip = Some ([], Returned ())"

subsection \<open>The C library on files\<close>

definition fopen :: "env \<Rightarrow> string \<Rightarrow> FILE option" where
  "fopen e name =
     (case files e name of
        None \<Rightarrow> None
      | Some bs \<Rightarrow> Some \<lparr>path = name, contents = bs, pos = 0\<rparr>)"

text \<open>
  \<open>fread\<close> of \<open>n\<close> bytes: the bytes obtained (fewer than \<open>n\<close> at the end of the file) and the
  file with its cursor moved past them.
\<close>

definition fread :: "FILE \<Rightarrow> nat \<Rightarrow> byte list \<times> FILE" where
  "fread fp n =
     (let got = take n (drop (pos fp) (contents fp))
      in (got, fp\<lparr>pos := pos fp + length got\<rparr>))"

text \<open>
  \<open>fseek (fp, offset, SEEK_SET)\<close>, the offset being the 64-bit pattern of the \<open>long\<close>
  argument: a pattern from \<open>2 ^ 63\<close> on is a negative offset, the call fails and the cursor
  stays where it was (the source ignores the return value).
\<close>

definition fseek :: "FILE \<Rightarrow> nat \<Rightarrow> FILE" where
  "fseek fp offset = (if offset < 2 ^ 63 then fp\<lparr>pos := offset\<rparr> else fp)"

subsection \<open>\<open>error_handling.c\<close>\<close>

definition handle_simple_error :: "message \<Rightarrow> unit run" where
  "handle_simple_error msg = Some ([Ev_printf msg], Exited 1)"

definition handle_file_action_error :: "message \<Rightarrow> bool \<Rightarrow> FILE option \<Rightarrow> unit run" where
  "handle_file_action_error msg exit_on_handle fp =
     Some ([Ev_printf msg] @ (case fp of None \<Rightarrow> [] | Some f \<Rightarrow> [Ev_fclose (path f)]),
           if exit_on_handle then Exited 1 else Returned ())"

definition handle_RSA_error :: "message \<Rightarrow> bool \<Rightarrow> unit run" where
  "handle_RSA_error msg exit_on_handle =
     Some ([Ev_printf msg, Ev_RSA_free, Ev_BN_clear_free],
           if exit_on_handle then Exited 1 else Returned ())"

subsection \<open>\<open>_read_private_key\<close>\<close>

definition read_private_key :: "env \<Rightarrow> string \<Rightarrow> string \<Rightarrow> RSA option run" where
  "read_private_key e private_key_file passphrase =
     (if \<not> RSA_new_ok e then call [Ev_RSA_new] None
      else
        (case fopen e private_key_file of
           None \<Rightarrow> call [Ev_RSA_new, Ev_fopen private_key_file, Ev_RSA_free] None
         | Some pk \<Rightarrow>
             (case PEM_read_RSAPrivateKey e (contents pk) passphrase of
                None \<Rightarrow>
                  call [Ev_RSA_new, Ev_fopen private_key_file,
                        Ev_PEM_read_RSAPrivateKey private_key_file,
                        Ev_fclose private_key_file, Ev_RSA_free] None
              | Some rsa \<Rightarrow>
                  call [Ev_RSA_new, Ev_fopen private_key_file,
                        Ev_PEM_read_RSAPrivateKey private_key_file,
                        Ev_fclose private_key_file] (Some rsa))))"

subsection \<open>\<open>_read_basic_header\<close>\<close>

text \<open>
  The flag is one \<open>bool\<close> read as a byte; it is true when the byte is not zero. The
  function returns the flag, the challenge and the file with its cursor after them.
\<close>

definition read_basic_header :: "env \<Rightarrow> FILE \<Rightarrow> (bool \<times> byte list \<times> FILE) run" where
  "read_basic_header e encrypted_file_handle =
     (let (flag, fh1) = fread encrypted_file_handle 1 in
      seq (call [Ev_fread (path encrypted_file_handle) 1 (length flag)] ()) (\<lambda>_.
      seq (if length flag < 1
           then seq (handle_RSA_error msg_fast_flag False)
                  (\<lambda>_. handle_file_action_error msg_empty True (Some encrypted_file_handle))
           else skip) (\<lambda>_.
      let (challenge, fh2) = fread fh1 (CHALLENGE_SIZE e) in
      seq (call [Ev_fread (path encrypted_file_handle) (CHALLENGE_SIZE e) (length challenge)] ()) (\<lambda>_.
      seq (if length challenge < CHALLENGE_SIZE e
           then seq (handle_RSA_error msg_challenge False)
                  (\<lambda>_. handle_file_action_error msg_empty True (Some encrypted_file_handle))
           else skip) (\<lambda>_.
      call [] (flag \<noteq> [] \<and> hd flag \<noteq> 0, challenge, fh2))))))"

subsection \<open>\<open>__find_block_slow\<close>\<close>

text \<open>The parameters and the locals of \<open>__find_block_slow\<close> that the loop does not change.\<close>

record scan =
  file_size :: nat
  block_size :: nat
  rsa :: RSA
  rsa_block_size :: nat
  password :: "byte list"
  challenge :: "byte list"
  end_of_header :: nat
  padding_used :: padding

text \<open>Lines 80 to 87: the padding is chosen from the two sizes.\<close>

definition determine_padding :: "nat \<Rightarrow> nat \<Rightarrow> padding" where
  "determine_padding block_size' rsa_block_size' =
     (if block_size' = rsa_block_size' then RSA_NO_PADDING else RSA_PKCS1_OAEP_PADDING)"

text \<open>
  Line 76: the buffer \<open>decrypted_block\<close> is declared with
  \<open>block_size + strlen(password)\<close> bytes. Lines 103 and 108: \<open>RSA_private_decrypt\<close> stores
  the decrypted bytes at its start and \<open>memcpy\<close> stores the password behind them.
\<close>

definition decrypted_block_capacity :: "scan \<Rightarrow> nat" where
  "decrypted_block_capacity s = block_size s + length (password s)"

definition bytes_written :: "scan \<Rightarrow> byte list \<Rightarrow> nat" where
  "bytes_written s decrypted = length decrypted + length (password s)"

text \<open>
  The body of the loop after the read, lines 102 to 117: what happens to one window.
\<close>

datatype attempt = Decrypt_failed | Out_of_bounds | No_match | Match

definition try_block :: "env \<Rightarrow> scan \<Rightarrow> byte list \<Rightarrow> attempt" where
  "try_block e s rsa_block =
     (case RSA_private_decrypt (rsa s) (padding_used s) rsa_block of
        None \<Rightarrow> Decrypt_failed
      | Some decrypted \<Rightarrow>
          if decrypted_block_capacity s < bytes_written s decrypted then Out_of_bounds
          else
            let block_hash = hash_individual_block e BLOCK_HASH (decrypted @ password s);
                new_challenge =
                  hash_individual_block e CHALLENGE_HASH (take (BLOCK_HASH_SIZE e) block_hash)
            in if take (CHALLENGE_SIZE e) new_challenge = take (CHALLENGE_SIZE e) (challenge s)
               then Match else No_match)"

text \<open>
  The \<open>for\<close> loop of lines 98 to 118 and the call of line 120. \<open>i\<close> is a \<open>size_t\<close>: the
  additions wrap at \<open>2 ^ 64\<close>. The trace so far is an accumulator.
\<close>

partial_function (option) find_block_slow_loop ::
  "env \<Rightarrow> scan \<Rightarrow> FILE \<Rightarrow> nat \<Rightarrow> event list \<Rightarrow> (event list \<times> nat outcome) option"
where
  "find_block_slow_loop e s fp i tr =
     (if i < file_size s then
        (let fp1 = fseek fp ((end_of_header s + i) mod 2 ^ 64);
             rsa_block = fst (fread fp1 (rsa_block_size s));
             fp2 = snd (fread fp1 (rsa_block_size s));
             tr1 = tr @ [Ev_fseek (path fp) ((end_of_header s + i) mod 2 ^ 64),
                         Ev_fread (path fp) (rsa_block_size s) (length rsa_block),
                         Ev_RSA_private_decrypt (padding_used s) rsa_block]
         in (case try_block e s rsa_block of
               Decrypt_failed \<Rightarrow>
                 find_block_slow_loop e s fp2 ((i + block_size s) mod 2 ^ 64) tr1
             | Out_of_bounds \<Rightarrow> Some (tr1, Undefined Buffer_overflow)
             | No_match \<Rightarrow>
                 find_block_slow_loop e s fp2 ((i + block_size s) mod 2 ^ 64) tr1
             | Match \<Rightarrow>
                 if block_size s = 0 then Some (tr1, Undefined Division_by_zero)
                 else Some (tr1, Returned (i div block_size s))))
      else
        seq (call tr ()) (\<lambda>_.
        seq (handle_simple_error msg_not_found) (\<lambda>_.
        Some ([], Undefined No_return_value))))"

declare find_block_slow_loop.simps [code]

text \<open>
  The entry of \<open>__find_block_slow\<close>: \<open>ftell\<close> gives the end of the header, the padding is
  determined, and the loop starts at \<open>i = 0\<close>.
\<close>

definition init_scan ::
  "FILE \<Rightarrow> nat \<Rightarrow> nat \<Rightarrow> RSA \<Rightarrow> nat \<Rightarrow> byte list \<Rightarrow> byte list \<Rightarrow> scan"
where
  "init_scan fp file_size' block_size' rsa' rsa_block_size' password' challenge' =
     \<lparr>file_size = file_size', block_size = block_size', rsa = rsa',
      rsa_block_size = rsa_block_size', password = password', challenge = challenge',
      end_of_header = pos fp,
      padding_used = determine_padding block_size' rsa_block_size'\<rparr>"

definition find_block_slow ::
  "env \<Rightarrow> FILE \<Rightarrow> nat \<Rightarrow> nat \<Rightarrow> RSA \<Rightarrow> nat \<Rightarrow> byte list \<Rightarrow> byte list \<Rightarrow> nat run"
where
  "find_block_slow e fp file_size' block_size' rsa' rsa_block_size' password' challenge' =
     find_block_slow_loop e
       (init_scan fp file_size' block_size' rsa' rsa_block_size' password' challenge')
       fp 0 [Ev_ftell (path fp)]"

subsection \<open>\<open>__find_block_fast\<close>\<close>

definition find_block_fast ::
  "env \<Rightarrow> FILE \<Rightarrow> nat \<Rightarrow> nat \<Rightarrow> RSA \<Rightarrow> nat \<Rightarrow> byte list \<Rightarrow> byte list \<Rightarrow> byte list \<Rightarrow> nat run"
where
  "find_block_fast e fp file_size' block_size' rsa' rsa_block_size' password' challenge' auth =
     call [] 0"

subsection \<open>\<open>_find_selected_block\<close>\<close>

definition find_selected_block ::
  "env \<Rightarrow> string \<Rightarrow> nat \<Rightarrow> nat \<Rightarrow> RSA \<Rightarrow> nat \<Rightarrow> byte list \<Rightarrow> nat run"
where
  "find_selected_block e encrypted_file encrypted_file_size block_size' rsa' rsa_block_size'
       password' =
     seq (call [Ev_fopen encrypted_file] (fopen e encrypted_file)) (\<lambda>fp0.
     seq (case fp0 of
            None \<Rightarrow> handle_RSA_error msg_open True
          | Some _ \<Rightarrow> skip) (\<lambda>_.
     case fp0 of
       None \<Rightarrow> Some ([], Undefined Null_pointer)
     | Some fp \<Rightarrow>
         seq (read_basic_header e fp) (\<lambda>(fast, challenge', fp1).
         seq (if fast then
                (let (auth, fp2) = fread fp1 (AUTH_SIZE e) in
                 seq (call [Ev_fread (path fp) (AUTH_SIZE e) (length auth)] ()) (\<lambda>_.
                 seq (if length auth < AUTH_SIZE e
                      then seq (handle_RSA_error msg_auth False)
                             (\<lambda>_. handle_file_action_error msg_empty True (Some fp))
                      else skip) (\<lambda>_.
                 find_block_fast e fp2 encrypted_file_size block_size' rsa' rsa_block_size'
                   password' challenge' auth)))
              else
                find_block_slow e fp1 encrypted_file_size block_size' rsa' rsa_block_size'
                  password' challenge') (\<lambda>selected_block_index.
         seq (call [Ev_fclose (path fp)] ()) (\<lambda>_.
         call [] selected_block_index)))))"

subsection \<open>\<open>decrypt_file\<close>\<close>

text \<open>
  Modelled from the spec: \<open>_ispowerof2\<close>, declared in \<open>utils.h\<close>, which is not among the
  sources. The spec says that the block size is checked to be a power of two.
\<close>

fun ispowerof2 :: "nat \<Rightarrow> bool" where
  "ispowerof2 n =
     (if n = 0 then False
      else if n = 1 then True
      else if even n then ispowerof2 (n div 2)
      else False)"

declare ispowerof2.simps [simp del]

text \<open>
  \<open>decrypt_file\<close> returns nothing in C; the model returns the final value of its local
  \<open>selected_block_index\<close>, the block that the symmetric decryption is to use.
  \<open>passed_block_index\<close> is a \<open>long int\<close>.
\<close>

definition decrypt_file ::
  "env \<Rightarrow> string \<Rightarrow> string \<Rightarrow> nat \<Rightarrow> byte list \<Rightarrow> string \<Rightarrow> string \<Rightarrow> int \<Rightarrow> nat run"
where
  "decrypt_file e encrypted_file decrypted_file block_size' password' private_key_file
       passphrase passed_block_index =
     seq (call [Ev_get_file_size encrypted_file] (get_file_size e encrypted_file))
       (\<lambda>encrypted_file_size.
     seq (if \<not> ispowerof2 block_size'
          then handle_simple_error (msg_block_size block_size')
          else skip) (\<lambda>_.
     seq (read_private_key e private_key_file passphrase) (\<lambda>rsa0.
     seq (case rsa0 of
            None \<Rightarrow> handle_simple_error msg_key
          | Some _ \<Rightarrow> skip) (\<lambda>_.
     case rsa0 of
       None \<Rightarrow> Some ([], Undefined Null_pointer)
     | Some rsa' \<Rightarrow>
         (let rsa_block_size' = RSA_size rsa' in
          seq (if passed_block_index < 0
               then find_selected_block e encrypted_file encrypted_file_size block_size' rsa'
                      rsa_block_size' password'
               else call [] (nat passed_block_index)) (\<lambda>selected_block_index.
          seq (call [Ev_RSA_free] ()) (\<lambda>_.
          call [] selected_block_index)))))))"

subsection \<open>Vocabulary of the properties\<close>

text \<open>
  Lines 99 and 100: the bytes that the loop decrypts at offset \<open>i\<close>, read after an \<open>fseek\<close>
  to \<open>end_of_header + i\<close>; there are fewer than \<open>rsa_block_size\<close> of them near the end
  of the file.
\<close>

definition window :: "scan \<Rightarrow> byte list \<Rightarrow> nat \<Rightarrow> byte list" where
  "window s c i = take (rsa_block_size s) (drop (end_of_header s + i) c)"

definition block_at :: "FILE \<Rightarrow> nat \<Rightarrow> nat \<Rightarrow> byte list" where
  "block_at fp rsa_block_size' i = take rsa_block_size' (drop (pos fp + i) (contents fp))"

text \<open>
  The acceptance test of lines 103 to 115 on one window: the decryption succeeds and the
  challenge hash of the block hash of the decrypted bytes followed by the password equals
  the challenge of the header.
\<close>

definition challenge_met ::
  "env \<Rightarrow> RSA \<Rightarrow> padding \<Rightarrow> byte list \<Rightarrow> byte list \<Rightarrow> byte list \<Rightarrow> bool"
where
  "challenge_met e rsa' padding' password' challenge' rsa_block =
     (case RSA_private_decrypt rsa' padding' rsa_block of
        None \<Rightarrow> False
      | Some decrypted \<Rightarrow>
          take (CHALLENGE_SIZE e)
            (hash_individual_block e CHALLENGE_HASH
               (take (BLOCK_HASH_SIZE e)
                  (hash_individual_block e BLOCK_HASH (decrypted @ password'))))
          = take (CHALLENGE_SIZE e) challenge')"

text \<open>The decrypted bytes of a window and the password fit the buffer of line 76.\<close>

definition fits_buffer :: "RSA \<Rightarrow> padding \<Rightarrow> nat \<Rightarrow> byte list \<Rightarrow> byte list \<Rightarrow> bool" where
  "fits_buffer rsa' padding' block_size' password' rsa_block =
     (case RSA_private_decrypt rsa' padding' rsa_block of
        None \<Rightarrow> True
      | Some decrypted \<Rightarrow>
          length decrypted + length password' \<le> block_size' + length password')"

text \<open>The offsets handed to \<open>fseek\<close> and the paddings handed to \<open>RSA_private_decrypt\<close>.\<close>

fun seek_offsets :: "event list \<Rightarrow> nat list" where
  "seek_offsets [] = []"
| "seek_offsets (Ev_fseek p off # tr) = off # seek_offsets tr"
| "seek_offsets (_ # tr) = seek_offsets tr"

fun paddings :: "event list \<Rightarrow> padding list" where
  "paddings [] = []"
| "paddings (Ev_RSA_private_decrypt p w # tr) = p # paddings tr"
| "paddings (_ # tr) = paddings tr"

text \<open>
  What a trace of the loop may hold: decryptions under the padding of the scan, no message
  but the one of line 120, and neither \<open>RSA_free\<close> nor \<open>fclose\<close>.
\<close>

definition scan_trace :: "scan \<Rightarrow> event list \<Rightarrow> bool" where
  "scan_trace s t \<longleftrightarrow>
     set (paddings t) \<subseteq> {padding_used s}
     \<and> (\<forall>m. Ev_printf m \<in> set t \<longrightarrow> m = msg_not_found)
     \<and> Ev_RSA_free \<notin> set t
     \<and> (\<forall>p. Ev_fclose p \<notin> set t)"

text \<open>The calls that reach into the file system.\<close>

fun touches_file :: "event \<Rightarrow> bool" where
  "touches_file (Ev_get_file_size p) = True"
| "touches_file (Ev_fopen p) = True"
| "touches_file (Ev_PEM_read_RSAPrivateKey p) = True"
| "touches_file (Ev_fclose p) = True"
| "touches_file (Ev_ftell p) = True"
| "touches_file (Ev_fseek p off) = True"
| "touches_file (Ev_fread p n m) = True"
| "touches_file _ = False"

subsection \<open>A small test bed\<close>

text \<open>
  Stand-ins for the parameters, used to run the model on concrete files: two-byte digests,
  a key of modulus size 4 that decrypts exactly the window \<open>9 9 9 9\<close> (to the two bytes
  \<open>5 6\<close>, under OAEP padding), and a few files. The password is \<open>pw\<close>.
\<close>

definition ex_hash :: "hash_id \<Rightarrow> byte list \<Rightarrow> byte list" where
  "ex_hash h bs =
     (case h of
        BLOCK_HASH \<Rightarrow> [of_nat (length bs), sum_list bs]
      | CHALLENGE_HASH \<Rightarrow> rev bs)"

definition ex_rsa :: RSA where
  "ex_rsa =
     \<lparr>RSA_size = 4,
      RSA_private_decrypt =
        (\<lambda>p w. if p = RSA_PKCS1_OAEP_PADDING \<and> w = [9, 9, 9, 9] then Some [5, 6] else None)\<rparr>"

definition ex_password :: "byte list" where
  "ex_password = [112, 119]"

definition ex_files :: "string \<Rightarrow> byte list option" where
  "ex_files name =
     (if name = ''key.pem'' then Some [45]
      else if name = ''enc'' then Some [0, 242, 4, 1, 1, 9, 9, 9, 9, 1, 1]
      else if name = ''bad'' then Some [0, 243, 4, 9, 9, 9, 9]
      else if name = ''fast'' then Some [1, 242, 4, 7, 7]
      else if name = ''fastshort'' then Some [1, 242, 4, 7]
      else if name = ''short'' then Some [0, 242]
      else if name = ''empty'' then Some []
      else None)"

definition ex_env :: env where
  "ex_env =
     \<lparr>CHALLENGE_SIZE = 2, AUTH_SIZE = 2, BLOCK_HASH_SIZE = 2,
      hash_individual_block = ex_hash,
      get_file_size = (\<lambda>name. case ex_files name of None \<Rightarrow> 0 | Some bs \<Rightarrow> length bs),
      files = ex_files,
      RSA_new_ok = True,
      PEM_read_RSAPrivateKey =
        (\<lambda>pem passphrase. if pem = [45] \<and> passphrase = ''secret'' then Some ex_rsa else None)\<rparr>"

definition ex_enc :: FILE where
  "ex_enc = \<lparr>path = ''enc'', contents = [0, 242, 4, 1, 1, 9, 9, 9, 9, 1, 1], pos = 3\<rparr>"

definition ex_bad :: FILE where
  "ex_bad = \<lparr>path = ''bad'', contents = [0, 243, 4, 9, 9, 9, 9], pos = 3\<rparr>"

text \<open>
  A key of modulus size 256 whose OAEP decryption of a full window gives 100 bytes, and a
  file with a three-byte header and one such window.
\<close>

definition ex_rsa_2048 :: RSA where
  "ex_rsa_2048 =
     \<lparr>RSA_size = 256,
      RSA_private_decrypt =
        (\<lambda>p w. if p = RSA_PKCS1_OAEP_PADDING \<and> length w = 256
                then Some (replicate 100 0) else None)\<rparr>"

definition ex_long :: FILE where
  "ex_long = \<lparr>path = ''long'', contents = [0, 242, 4] @ replicate 256 1, pos = 3\<rparr>"

section \<open>Properties\<close>

subsection \<open>Sequencing and the loop\<close>


lemma seq_None [simp]: "seq None f = None"
  by (simp add: seq_def)

lemma seq_Returned [simp]:
  "seq (Some (t, Returned v)) f = (case f v of None \<Rightarrow> None | Some (t', r) \<Rightarrow> Some (t @ t', r))"
  by (simp add: seq_def)

lemma seq_Exited [simp]: "seq (Some (t, Exited n)) f = Some (t, Exited n)"
  by (simp add: seq_def)

lemma seq_Undefined [simp]: "seq (Some (t, Undefined u)) f = Some (t, Undefined u)"
  by (simp add: seq_def)

lemma seq_call [simp]:
  "seq (call evs v) f = (case f v of None \<Rightarrow> None | Some (t', r) \<Rightarrow> Some (evs @ t', r))"
  by (simp add: call_def)

lemma seq_skip [simp]: "seq skip f = f ()"
  by (cases "f ()") (auto simp: skip_def)

lemma loop_done:
  "\<not> i < file_size s \<Longrightarrow>
   find_block_slow_loop e s fp i tr = Some (tr @ [Ev_printf msg_not_found], Exited 1)"
  by (subst find_block_slow_loop.simps) (simp add: handle_simple_error_def)

lemma loop_step:
  assumes "i < file_size s" and "end_of_header s + i < 2 ^ 63"
  shows "find_block_slow_loop e s fp i tr =
    (let w = window s (contents fp) i;
         tr1 = tr @ [Ev_fseek (path fp) (end_of_header s + i),
                     Ev_fread (path fp) (rsa_block_size s) (length w),
                     Ev_RSA_private_decrypt (padding_used s) w];
         fp2 = fp\<lparr>pos := end_of_header s + i + length w\<rparr>
     in (case try_block e s w of
           Decrypt_failed \<Rightarrow> find_block_slow_loop e s fp2 ((i + block_size s) mod 2 ^ 64) tr1
         | Out_of_bounds \<Rightarrow> Some (tr1, Undefined Buffer_overflow)
         | No_match \<Rightarrow> find_block_slow_loop e s fp2 ((i + block_size s) mod 2 ^ 64) tr1
         | Match \<Rightarrow>
             if block_size s = 0 then Some (tr1, Undefined Division_by_zero)
             else Some (tr1, Returned (i div block_size s))))"
proof -
  have m: "(end_of_header s + i) mod 2 ^ 64 = end_of_header s + i"
    using assms(2) by simp
  have fs: "fseek fp (end_of_header s + i) = fp\<lparr>pos := end_of_header s + i\<rparr>"
    using assms(2) by (simp add: fseek_def)
  have fr1: "fst (fread (fp\<lparr>pos := end_of_header s + i\<rparr>) (rsa_block_size s))
               = window s (contents fp) i"
    by (simp add: fread_def window_def Let_def)
  have fr2: "snd (fread (fp\<lparr>pos := end_of_header s + i\<rparr>) (rsa_block_size s))
               = fp\<lparr>pos := end_of_header s + i + length (window s (contents fp) i)\<rparr>"
    by (simp add: fread_def window_def Let_def)
  show ?thesis
    by (subst find_block_slow_loop.simps)
       (simp only: m fs fr1 fr2 assms(1) if_True Let_def)
qed



lemma seek_offsets_append: "seek_offsets (xs @ ys) = seek_offsets xs @ seek_offsets ys"
  by (induction xs rule: seek_offsets.induct) simp_all

lemma loop_Returned:
  assumes bs: "0 < block_size s" and fit: "end_of_header s + file_size s \<le> 2 ^ 63"
    and bs32: "block_size s < 2 ^ 32"
  shows "contents fp = c \<Longrightarrow> find_block_slow_loop e s fp i tr = Some (tr', Returned idx) \<Longrightarrow>
     \<exists>k. i + k * block_size s < file_size s \<and> idx = (i + k * block_size s) div block_size s
       \<and> try_block e s (window s c (i + k * block_size s)) = Match
       \<and> (\<forall>k'<k. try_block e s (window s c (i + k' * block_size s)) \<in> {Decrypt_failed, No_match})
       \<and> seek_offsets tr' =
           seek_offsets tr @ map (\<lambda>k'. end_of_header s + i + k' * block_size s) [0..<Suc k]"
proof (induction "file_size s - i" arbitrary: i fp tr rule: less_induct)
  case less
  show ?case
  proof (cases "i < file_size s")
    case False
    with less.prems show ?thesis by (simp add: loop_done)
  next
    case True
    let ?b = "block_size s"
    let ?w = "window s c i"
    let ?tr1 = "tr @ [Ev_fseek (path fp) (end_of_header s + i),
                      Ev_fread (path fp) (rsa_block_size s) (length ?w),
                      Ev_RSA_private_decrypt (padding_used s) ?w]"
    let ?fp2 = "fp\<lparr>pos := end_of_header s + i + length ?w\<rparr>"
    have eo: "end_of_header s + i < 2 ^ 63" using True fit by linarith
    have "i + ?b < 2 ^ 64" using True fit bs32 by simp
    then have nw: "(i + ?b) mod 2 ^ 64 = i + ?b" by simp
    note step = loop_step [OF True eo, of e fp tr, unfolded Let_def less.prems(1) nw]
    have so: "seek_offsets ?tr1 = seek_offsets tr @ [end_of_header s + i]"
      by (simp add: seek_offsets_append)
    have rec: "\<exists>k. i + k * ?b < file_size s \<and> idx = (i + k * ?b) div ?b
          \<and> try_block e s (window s c (i + k * ?b)) = Match
          \<and> (\<forall>k'<k. try_block e s (window s c (i + k' * ?b)) \<in> {Decrypt_failed, No_match})
          \<and> seek_offsets tr' = seek_offsets tr @ map (\<lambda>k'. end_of_header s + i + k' * ?b) [0..<Suc k]"
      if q: "try_block e s ?w \<in> {Decrypt_failed, No_match}"
        and r: "find_block_slow_loop e s ?fp2 (i + ?b) ?tr1 = Some (tr', Returned idx)"
    proof -
      have "file_size s - (i + ?b) < file_size s - i" using True bs by simp
      from less.hyps [OF this _ r] obtain k where
        k: "i + ?b + k * ?b < file_size s" "idx = (i + ?b + k * ?b) div ?b"
           "try_block e s (window s c (i + ?b + k * ?b)) = Match"
           "\<forall>k'<k. try_block e s (window s c (i + ?b + k' * ?b)) \<in> {Decrypt_failed, No_match}"
           "seek_offsets tr' = seek_offsets ?tr1 @
              map (\<lambda>k'. end_of_header s + (i + ?b) + k' * ?b) [0..<Suc k]"
        using less.prems(1) by auto
      have a: "\<And>j. i + ?b + j * ?b = i + Suc j * ?b" by simp
      have "\<forall>k'<Suc k. try_block e s (window s c (i + k' * ?b)) \<in> {Decrypt_failed, No_match}"
      proof (intro allI impI)
        fix k' assume "k' < Suc k"
        then show "try_block e s (window s c (i + k' * ?b)) \<in> {Decrypt_failed, No_match}"
          using q k(4) by (cases k') (auto simp: a)
      qed
      moreover have "seek_offsets tr' =
          seek_offsets tr @ map (\<lambda>k'. end_of_header s + i + k' * ?b) [0..<Suc (Suc k)]"
        unfolding k(5) so by (subst (2) map_upt_Suc) (simp add: add.assoc del: upt_Suc)
      ultimately show ?thesis
        using k(1-3) unfolding a by blast
    qed
    show ?thesis
    proof (cases "try_block e s ?w")
      case Match
      with less.prems(2) step bs have "tr' = ?tr1" "idx = i div ?b" by auto
      then show ?thesis using Match True so by (intro exI [of _ 0]) simp
    next
      case Out_of_bounds
      with less.prems(2) step show ?thesis by simp
    next
      case Decrypt_failed
      with less.prems(2) step rec show ?thesis by simp
    next
      case No_match
      with less.prems(2) step rec show ?thesis by simp
    qed
  qed
qed



lemma paddings_append: "paddings (xs @ ys) = paddings xs @ paddings ys"
  by (induction xs rule: paddings.induct) simp_all

lemma scan_trace_append: "scan_trace s (a @ b) \<longleftrightarrow> scan_trace s a \<and> scan_trace s b"
  by (auto simp: scan_trace_def paddings_append)

lemma loop_invariants:
  assumes "find_block_slow_loop e s fp i tr = Some y"
  shows "(\<exists>suf. fst y = tr @ suf \<and> scan_trace s suf)
       \<and> (block_size s = 0 \<longrightarrow> (\<forall>idx. snd y \<noteq> Returned idx))"
proof (rule find_block_slow_loop.raw_induct
    [where P = "\<lambda>e s fp i tr y.
        (\<exists>suf. fst y = tr @ suf \<and> scan_trace s suf)
        \<and> (block_size s = 0 \<longrightarrow> (\<forall>idx. snd y \<noteq> Returned idx))", OF _ assms])
  fix loop e s fp i tr y
  assume 1: "\<And>e s fp i tr y. loop e s fp i tr = Some y \<Longrightarrow>
        (\<exists>suf. fst y = tr @ suf \<and> scan_trace s suf)
        \<and> (block_size s = 0 \<longrightarrow> (\<forall>idx. snd y \<noteq> Returned idx))"
    "(if i < file_size s then
        (let fp1 = fseek fp ((end_of_header s + i) mod 2 ^ 64);
             rsa_block = fst (fread fp1 (rsa_block_size s));
             fp2 = snd (fread fp1 (rsa_block_size s));
             tr1 = tr @ [Ev_fseek (path fp) ((end_of_header s + i) mod 2 ^ 64),
                         Ev_fread (path fp) (rsa_block_size s) (length rsa_block),
                         Ev_RSA_private_decrypt (padding_used s) rsa_block]
         in (case try_block e s rsa_block of
               Decrypt_failed \<Rightarrow> loop e s fp2 ((i + block_size s) mod 2 ^ 64) tr1
             | Out_of_bounds \<Rightarrow> Some (tr1, Undefined Buffer_overflow)
             | No_match \<Rightarrow> loop e s fp2 ((i + block_size s) mod 2 ^ 64) tr1
             | Match \<Rightarrow>
                 if block_size s = 0 then Some (tr1, Undefined Division_by_zero)
                 else Some (tr1, Returned (i div block_size s))))
      else
        seq (call tr ()) (\<lambda>_.
        seq (handle_simple_error msg_not_found) (\<lambda>_.
        Some ([], Undefined No_return_value)))) = Some y"
  show "(\<exists>suf. fst y = tr @ suf \<and> scan_trace s suf)
        \<and> (block_size s = 0 \<longrightarrow> (\<forall>idx. snd y \<noteq> Returned idx))" (is ?thesis)
  proof (cases "i < file_size s")
    case False
    with 1(2) show ?thesis
      by (auto simp: handle_simple_error_def scan_trace_def)
  next
    case True
    define w where "w = fst (fread (fseek fp ((end_of_header s + i) mod 2 ^ 64)) (rsa_block_size s))"
    define step where "step = [Ev_fseek (path fp) ((end_of_header s + i) mod 2 ^ 64),
                  Ev_fread (path fp) (rsa_block_size s) (length w),
                  Ev_RSA_private_decrypt (padding_used s) w]"
    have here: "scan_trace s step" by (simp add: step_def scan_trace_def)
    have later: ?thesis if "loop e s fp' i' (tr @ step) = Some y" for fp' i'
    proof -
      from 1(1) [OF that] obtain suf where
        "fst y = (tr @ step) @ suf" "scan_trace s suf"
        and z: "block_size s = 0 \<longrightarrow> (\<forall>idx. snd y \<noteq> Returned idx)"
        by auto
      then have "fst y = tr @ (step @ suf)" "scan_trace s (step @ suf)"
        using here by (simp_all add: scan_trace_append)
      with z show ?thesis by blast
    qed
    note body = 1(2) [unfolded Let_def, folded w_def, folded step_def]
    show ?thesis
    proof (cases "try_block e s w")
      case Match
      with body True here show ?thesis
        by (auto split: if_splits)
    next
      case Out_of_bounds
      with body True here show ?thesis by auto
    next
      case Decrypt_failed
      with body True later show ?thesis by simp
    next
      case No_match
      with body True later show ?thesis by simp
    qed
  qed
qed

lemma loop_exhausted:
  assumes bs: "0 < block_size s" and fit: "end_of_header s + file_size s \<le> 2 ^ 63"
    and bs32: "block_size s < 2 ^ 32"
  shows "contents fp = c \<Longrightarrow>
     (\<forall>k. i + k * block_size s < file_size s \<longrightarrow>
          try_block e s (window s c (i + k * block_size s)) \<in> {Decrypt_failed, No_match}) \<Longrightarrow>
     \<exists>n tr'. find_block_slow_loop e s fp i tr = Some (tr' @ [Ev_printf msg_not_found], Exited 1)
       \<and> seek_offsets tr' =
           seek_offsets tr @ map (\<lambda>k. end_of_header s + i + k * block_size s) [0..<n]
       \<and> file_size s \<le> i + n * block_size s
       \<and> (\<forall>k<n. i + k * block_size s < file_size s)"
proof (induction "file_size s - i" arbitrary: i fp tr rule: less_induct)
  case less
  let ?b = "block_size s"
  show ?case
  proof (cases "i < file_size s")
    case False
    then show ?thesis
      by (intro exI [of _ 0] exI [of _ tr]) (simp add: loop_done)
  next
    case True
    let ?w = "window s c i"
    let ?tr1 = "tr @ [Ev_fseek (path fp) (end_of_header s + i),
                      Ev_fread (path fp) (rsa_block_size s) (length ?w),
                      Ev_RSA_private_decrypt (padding_used s) ?w]"
    let ?fp2 = "fp\<lparr>pos := end_of_header s + i + length ?w\<rparr>"
    have eo: "end_of_header s + i < 2 ^ 63" using True fit by linarith
    have "i + ?b < 2 ^ 64" using True fit bs32 by simp
    then have nw: "(i + ?b) mod 2 ^ 64 = i + ?b" by simp
    note step = loop_step [OF True eo, of e fp tr, unfolded Let_def less.prems(1) nw]
    have so: "seek_offsets ?tr1 = seek_offsets tr @ [end_of_header s + i]"
      by (simp add: seek_offsets_append)
    have q0: "try_block e s ?w \<in> {Decrypt_failed, No_match}"
      using less.prems(2) [rule_format, of 0] True by simp
    then have unfold: "find_block_slow_loop e s fp i tr = find_block_slow_loop e s ?fp2 (i + ?b) ?tr1"
      using step by auto
    have a: "\<And>j. i + ?b + j * ?b = i + Suc j * ?b" by simp
    have dec: "file_size s - (i + ?b) < file_size s - i" using True bs by simp
    have q': "\<forall>k. i + ?b + k * ?b < file_size s \<longrightarrow>
               try_block e s (window s c (i + ?b + k * ?b)) \<in> {Decrypt_failed, No_match}"
      using less.prems(2) unfolding a by blast
    from less.hyps [OF dec _ q', of ?fp2 ?tr1] less.prems(1)
    obtain n tr' where
      n: "find_block_slow_loop e s ?fp2 (i + ?b) ?tr1 = Some (tr' @ [Ev_printf msg_not_found], Exited 1)"
         "seek_offsets tr' = seek_offsets ?tr1 @ map (\<lambda>k. end_of_header s + (i + ?b) + k * ?b) [0..<n]"
         "file_size s \<le> i + ?b + n * ?b"
         "\<forall>k<n. i + ?b + k * ?b < file_size s"
      by auto
    have "seek_offsets tr' = seek_offsets tr @ map (\<lambda>k. end_of_header s + i + k * ?b) [0..<Suc n]"
      unfolding n(2) so by (subst map_upt_Suc) (simp add: add.assoc del: upt_Suc)
    moreover have "\<forall>k<Suc n. i + k * ?b < file_size s"
    proof (intro allI impI)
      fix k assume "k < Suc n"
      then show "i + k * ?b < file_size s"
        using True n(4) by (cases k) (auto simp: a)
    qed
    moreover have "file_size s \<le> i + Suc n * ?b" using n(3) by simp
    ultimately show ?thesis
      using n(1) unfold by (intro exI [of _ "Suc n"] exI [of _ tr']) simp
  qed
qed

lemma loop_total:
  assumes bs: "0 < block_size s" and fit: "end_of_header s + file_size s \<le> 2 ^ 63"
    and bs32: "block_size s < 2 ^ 32"
  shows "\<exists>y. find_block_slow_loop e s fp i tr = Some y"
proof (induction "file_size s - i" arbitrary: i fp tr rule: less_induct)
  case less
  let ?b = "block_size s"
  show ?case
  proof (cases "i < file_size s")
    case False
    then show ?thesis by (simp add: loop_done)
  next
    case True
    have eo: "end_of_header s + i < 2 ^ 63" using True fit by linarith
    have "i + ?b < 2 ^ 64" using True fit bs32 by simp
    then have nw: "(i + ?b) mod 2 ^ 64 = i + ?b" by simp
    note step = loop_step [OF True eo, of e fp tr, unfolded Let_def nw]
    have dec: "file_size s - (i + ?b) < file_size s - i" using True bs by simp
    show ?thesis
      unfolding step using less.hyps [OF dec] bs
      by (cases "try_block e s (window s (contents fp) i)") simp_all
  qed
qed

lemma loop_finds:
  assumes bs: "0 < block_size s" and fit: "end_of_header s + file_size s \<le> 2 ^ 63"
    and bs32: "block_size s < 2 ^ 32"
  shows "contents fp = c \<Longrightarrow> i + k * block_size s < file_size s \<Longrightarrow>
     try_block e s (window s c (i + k * block_size s)) = Match \<Longrightarrow>
     (\<forall>k'<k. try_block e s (window s c (i + k' * block_size s)) \<in> {Decrypt_failed, No_match}) \<Longrightarrow>
     \<exists>tr'. find_block_slow_loop e s fp i tr
             = Some (tr', Returned ((i + k * block_size s) div block_size s))
       \<and> seek_offsets tr' =
           seek_offsets tr @ map (\<lambda>k'. end_of_header s + i + k' * block_size s) [0..<Suc k]"
proof (induction k arbitrary: i fp tr)
  case 0
  let ?b = "block_size s"
  let ?w = "window s c i"
  let ?tr1 = "tr @ [Ev_fseek (path fp) (end_of_header s + i),
                    Ev_fread (path fp) (rsa_block_size s) (length ?w),
                    Ev_RSA_private_decrypt (padding_used s) ?w]"
  have lt: "i < file_size s" using "0.prems"(2) by simp
  have eo: "end_of_header s + i < 2 ^ 63" using lt fit by linarith
  note step = loop_step [OF lt eo, of e fp tr, unfolded Let_def "0.prems"(1)]
  have m: "try_block e s ?w = Match" using "0.prems"(3) by simp
  have "find_block_slow_loop e s fp i tr = Some (?tr1, Returned (i div ?b))"
    using step m bs by simp
  moreover have "seek_offsets ?tr1 = seek_offsets tr @ [end_of_header s + i]"
    by (simp add: seek_offsets_append)
  ultimately show ?case by simp
next
  case (Suc k)
  let ?b = "block_size s"
  let ?w = "window s c i"
  let ?tr1 = "tr @ [Ev_fseek (path fp) (end_of_header s + i),
                    Ev_fread (path fp) (rsa_block_size s) (length ?w),
                    Ev_RSA_private_decrypt (padding_used s) ?w]"
  let ?fp2 = "fp\<lparr>pos := end_of_header s + i + length ?w\<rparr>"
  have a: "\<And>j. i + ?b + j * ?b = i + Suc j * ?b" by simp
  have lt: "i < file_size s" using Suc.prems(2) by simp
  have eo: "end_of_header s + i < 2 ^ 63" using lt fit by linarith
  have "i + ?b < 2 ^ 64" using lt fit bs32 by simp
  then have nw: "(i + ?b) mod 2 ^ 64 = i + ?b" by simp
  note step = loop_step [OF lt eo, of e fp tr, unfolded Let_def Suc.prems(1) nw]
  have q0: "try_block e s ?w \<in> {Decrypt_failed, No_match}"
    using Suc.prems(4) [rule_format, of 0] by simp
  then have unfold: "find_block_slow_loop e s fp i tr
      = find_block_slow_loop e s ?fp2 (i + ?b) ?tr1"
    using step by auto
  have so: "seek_offsets ?tr1 = seek_offsets tr @ [end_of_header s + i]"
    by (simp add: seek_offsets_append)
  have c2: "contents ?fp2 = c" using Suc.prems(1) by simp
  have lt': "i + ?b + k * ?b < file_size s" using Suc.prems(2) by (simp add: a)
  have m': "try_block e s (window s c (i + ?b + k * ?b)) = Match"
    using Suc.prems(3) by (simp add: a)
  have q': "\<forall>k'<k. try_block e s (window s c (i + ?b + k' * ?b)) \<in> {Decrypt_failed, No_match}"
  proof (intro allI impI)
    fix k' assume "k' < k"
    then have "Suc k' < Suc k" by simp
    from Suc.prems(4) [rule_format, OF this]
    show "try_block e s (window s c (i + ?b + k' * ?b)) \<in> {Decrypt_failed, No_match}"
      by (simp add: a)
  qed
  from Suc.IH [OF c2 lt' m' q', of ?tr1] obtain tr' where
    r: "find_block_slow_loop e s ?fp2 (i + ?b) ?tr1
          = Some (tr', Returned ((i + ?b + k * ?b) div ?b))"
    and o: "seek_offsets tr' = seek_offsets ?tr1 @
          map (\<lambda>k'. end_of_header s + (i + ?b) + k' * ?b) [0..<Suc k]"
    by blast
  have "seek_offsets tr' =
      seek_offsets tr @ map (\<lambda>k'. end_of_header s + i + k' * ?b) [0..<Suc (Suc k)]"
    unfolding o so by (subst (2) map_upt_Suc) (simp add: add.assoc del: upt_Suc)
  with r unfold show ?case by (simp add: a)
qed

subsection \<open>The scan record and the acceptance test\<close>

lemma init_scan_simps [simp]:
  "file_size (init_scan fp fsz bs key rbs pw ch) = fsz"
  "block_size (init_scan fp fsz bs key rbs pw ch) = bs"
  "rsa (init_scan fp fsz bs key rbs pw ch) = key"
  "rsa_block_size (init_scan fp fsz bs key rbs pw ch) = rbs"
  "password (init_scan fp fsz bs key rbs pw ch) = pw"
  "challenge (init_scan fp fsz bs key rbs pw ch) = ch"
  "end_of_header (init_scan fp fsz bs key rbs pw ch) = pos fp"
  "padding_used (init_scan fp fsz bs key rbs pw ch) = determine_padding bs rbs"
  by (simp_all add: init_scan_def)

lemma window_init_scan [simp]:
  "window (init_scan fp fsz bs key rbs pw ch) (contents fp) i = block_at fp rbs i"
  by (simp add: window_def block_at_def)

lemma try_block_Match:
  "try_block e s w = Match \<Longrightarrow>
   challenge_met e (rsa s) (padding_used s) (password s) (challenge s) w"
  by (auto simp: try_block_def challenge_met_def Let_def split: option.splits if_splits)

lemma try_block_quiet:
  "try_block e s w \<in> {Decrypt_failed, No_match} \<Longrightarrow>
   \<not> challenge_met e (rsa s) (padding_used s) (password s) (challenge s) w"
  by (auto simp: try_block_def challenge_met_def Let_def split: option.splits if_splits)

lemma quiet_try_block:
  "\<not> challenge_met e (rsa s) (padding_used s) (password s) (challenge s) w \<Longrightarrow>
   fits_buffer (rsa s) (padding_used s) (block_size s) (password s) w \<Longrightarrow>
   try_block e s w \<in> {Decrypt_failed, No_match}"
  by (auto simp: try_block_def challenge_met_def fits_buffer_def Let_def
        decrypted_block_capacity_def bytes_written_def split: option.splits if_splits)

lemma Match_try_block:
  "challenge_met e (rsa s) (padding_used s) (password s) (challenge s) w \<Longrightarrow>
   fits_buffer (rsa s) (padding_used s) (block_size s) (password s) w \<Longrightarrow>
   try_block e s w = Match"
  by (auto simp: try_block_def challenge_met_def fits_buffer_def Let_def
        decrypted_block_capacity_def bytes_written_def split: option.splits if_splits)

lemma sorted_offsets:
  "0 < (b::nat) \<Longrightarrow> sorted_wrt (<) (map (\<lambda>k. a + k * b) [0..<n])"
  by (simp add: sorted_wrt_map sorted_wrt_mono_rel [OF _ sorted_wrt_upt])

subsection \<open>Powers of two\<close>

lemma ispowerof2_power: "ispowerof2 (2 ^ k)"
proof (induction k)
  case 0
  show ?case by (simp add: ispowerof2.simps)
next
  case (Suc k)
  have "(2::nat) ^ Suc k \<noteq> 0" "(2::nat) ^ Suc k \<noteq> 1" "even ((2::nat) ^ Suc k)"
    "(2::nat) ^ Suc k div 2 = 2 ^ k"
    by simp_all
  with Suc show ?case
    by (subst ispowerof2.simps) (simp only: if_False if_True)
qed

lemma ispowerof2_is_power: "ispowerof2 n \<Longrightarrow> \<exists>k. n = 2 ^ k"
proof (induction n rule: ispowerof2.induct)
  case (1 n)
  show ?case
  proof (cases "n = 0 \<or> n = 1")
    case True
    with "1.prems" show ?thesis
      by (auto simp: ispowerof2.simps intro: exI [of _ 0])
  next
    case False
    with "1.prems" have e: "even n" and h: "ispowerof2 (n div 2)"
      by (auto simp: ispowerof2.simps [of n] split: if_splits)
    from "1.IH" [OF _ _ e h] False obtain k where "n div 2 = 2 ^ k" by auto
    with e have "n = 2 ^ Suc k" by auto
    then show ?thesis by blast
  qed
qed

lemma ispowerof2_iff: "ispowerof2 n \<longleftrightarrow> (\<exists>k. n = 2 ^ k)"
  using ispowerof2_power ispowerof2_is_power by blast

subsection \<open>Runs of the test bed\<close>

lemmas ex_defs = find_block_slow_def init_scan_def determine_padding_def
  find_block_slow_loop.simps fseek_def fread_def try_block_def ex_rsa_def ex_env_def
  ex_hash_def ex_password_def decrypted_block_capacity_def bytes_written_def Let_def
  handle_simple_error_def

lemmas run_defs = decrypt_file_def find_selected_block_def read_basic_header_def
  read_private_key_def fopen_def fread_def handle_simple_error_def
  handle_file_action_error_def handle_RSA_error_def find_block_fast_def call_def skip_def

lemmas ex_world = ex_env_def ex_files_def

lemma ex_enc_run:
  "find_block_slow ex_env ex_enc 11 2 ex_rsa 4 ex_password [242, 4] =
     Some ([Ev_ftell ''enc'', Ev_fseek ''enc'' 3, Ev_fread ''enc'' 4 4,
            Ev_RSA_private_decrypt RSA_PKCS1_OAEP_PADDING [1, 1, 9, 9],
            Ev_fseek ''enc'' 5, Ev_fread ''enc'' 4 4,
            Ev_RSA_private_decrypt RSA_PKCS1_OAEP_PADDING [9, 9, 9, 9]],
           Returned 1)"
  by (simp add: find_block_slow_def init_scan_def determine_padding_def ex_enc_def
        find_block_slow_loop.simps fseek_def fread_def try_block_def ex_rsa_def ex_env_def
        ex_hash_def ex_password_def decrypted_block_capacity_def bytes_written_def Let_def)

lemma ex_bad_no_padding_run:
  "find_block_slow ex_env ex_bad 7 4 ex_rsa 4 ex_password [243, 4] =
     Some ([Ev_ftell ''bad'', Ev_fseek ''bad'' 3, Ev_fread ''bad'' 4 4,
            Ev_RSA_private_decrypt RSA_NO_PADDING [9, 9, 9, 9],
            Ev_fseek ''bad'' 7, Ev_fread ''bad'' 4 0,
            Ev_RSA_private_decrypt RSA_NO_PADDING [],
            Ev_printf msg_not_found],
           Exited 1)"
  by (simp add: ex_defs ex_bad_def)

lemma ex_bad_none:
  "\<forall>i<7. 2 dvd i \<longrightarrow>
      \<not> challenge_met ex_env ex_rsa (determine_padding 2 4) ex_password [243, 4]
           (block_at ex_bad 4 i)
      \<and> fits_buffer ex_rsa (determine_padding 2 4) 2 ex_password (block_at ex_bad 4 i)"
proof (intro allI impI)
  fix i :: nat assume "i < 7" "2 dvd i"
  then have "i = 0 \<or> i = 2 \<or> i = 4 \<or> i = 6"
    by presburger
  then show "\<not> challenge_met ex_env ex_rsa (determine_padding 2 4) ex_password [243, 4]
           (block_at ex_bad 4 i)
      \<and> fits_buffer ex_rsa (determine_padding 2 4) 2 ex_password (block_at ex_bad 4 i)"
    by (elim disjE)
       (simp_all add: challenge_met_def fits_buffer_def block_at_def ex_bad_def ex_rsa_def
          ex_env_def ex_hash_def ex_password_def determine_padding_def)
qed

section \<open>The claims\<close>

subsection \<open>C1: the slow scan returns the first match\<close>

lemma find_block_slow_returned:
  assumes run: "find_block_slow e fp fsz bs key rbs pw ch = Some (tr, Returned idx)"
    and fit: "pos fp + fsz \<le> 2 ^ 63"
    and bs32: "bs < 2 ^ 32"
  shows "\<exists>i. i < fsz \<and> bs dvd i \<and> idx = i div bs
      \<and> challenge_met e key (determine_padding bs rbs) pw ch (block_at fp rbs i)
      \<and> (\<forall>j<i. bs dvd j \<longrightarrow>
            \<not> challenge_met e key (determine_padding bs rbs) pw ch (block_at fp rbs j))
      \<and> seek_offsets tr = map (\<lambda>k. pos fp + k * bs) [0..<Suc idx]
      \<and> sorted_wrt (<) (seek_offsets tr)"
proof -
  let ?s = "init_scan fp fsz bs key rbs pw ch"
  have loop: "find_block_slow_loop e ?s fp 0 [Ev_ftell (path fp)] = Some (tr, Returned idx)"
    using run by (simp add: find_block_slow_def)
  have pos: "0 < bs"
    using loop_invariants [OF loop] by auto
  have "\<exists>k. 0 + k * block_size ?s < file_size ?s \<and> idx = (0 + k * block_size ?s) div block_size ?s
       \<and> try_block e ?s (window ?s (contents fp) (0 + k * block_size ?s)) = Match
       \<and> (\<forall>k'<k. try_block e ?s (window ?s (contents fp) (0 + k' * block_size ?s))
              \<in> {Decrypt_failed, No_match})
       \<and> seek_offsets tr =
           seek_offsets [Ev_ftell (path fp)] @
             map (\<lambda>k'. end_of_header ?s + 0 + k' * block_size ?s) [0..<Suc k]"
    by (rule loop_Returned [OF _ _ _ refl loop]) (use pos fit bs32 in simp_all)
  then obtain k where k: "k * bs < fsz" "idx = k"
      "try_block e ?s (block_at fp rbs (k * bs)) = Match"
      "\<forall>k'<k. try_block e ?s (block_at fp rbs (k' * bs)) \<in> {Decrypt_failed, No_match}"
      "seek_offsets tr = map (\<lambda>k'. pos fp + k' * bs) [0..<Suc k]"
    using pos by auto
  have met: "challenge_met e key (determine_padding bs rbs) pw ch (block_at fp rbs (k * bs))"
    using try_block_Match [OF k(3)] by simp
  have earlier: "\<not> challenge_met e key (determine_padding bs rbs) pw ch (block_at fp rbs j)"
    if "j < k * bs" "bs dvd j" for j
  proof -
    from that(2) obtain k' where j: "j = k' * bs" by (metis dvd_div_mult_self)
    with that(1) pos have "k' < k" by simp
    with k(4) have "try_block e ?s (block_at fp rbs j) \<in> {Decrypt_failed, No_match}"
      unfolding j by blast
    from try_block_quiet [OF this] show ?thesis by simp
  qed
  have "sorted_wrt (<) (seek_offsets tr)"
    unfolding k(5) by (rule sorted_offsets [OF pos])
  with k(1,2,5) met earlier pos show ?thesis
    by (intro exI [of _ "k * bs"]) simp
qed

lemma find_block_slow_finds:
  assumes fit: "pos fp + fsz \<le> 2 ^ 63" and bs32: "bs < 2 ^ 32" and bs: "0 < bs"
    and i: "i < fsz" "bs dvd i"
    and met: "challenge_met e key (determine_padding bs rbs) pw ch (block_at fp rbs i)"
    and fits: "fits_buffer key (determine_padding bs rbs) bs pw (block_at fp rbs i)"
    and earlier: "\<forall>j<i. bs dvd j \<longrightarrow>
        \<not> challenge_met e key (determine_padding bs rbs) pw ch (block_at fp rbs j)
        \<and> fits_buffer key (determine_padding bs rbs) bs pw (block_at fp rbs j)"
  shows "\<exists>tr. find_block_slow e fp fsz bs key rbs pw ch = Some (tr, Returned (i div bs))
      \<and> seek_offsets tr = map (\<lambda>k. pos fp + k * bs) [0..<Suc (i div bs)]
      \<and> sorted_wrt (<) (seek_offsets tr)"
proof -
  let ?s = "init_scan fp fsz bs key rbs pw ch"
  define k where "k = i div bs"
  have ik: "i = k * bs" using i(2) by (simp add: k_def)
  have lt: "0 + k * block_size ?s < file_size ?s" using i(1) ik by simp
  have m: "try_block e ?s (window ?s (contents fp) (0 + k * block_size ?s)) = Match"
    using Match_try_block [of e ?s "block_at fp rbs i"] met fits ik by simp
  have q: "\<forall>k'<k. try_block e ?s (window ?s (contents fp) (0 + k' * block_size ?s))
             \<in> {Decrypt_failed, No_match}"
  proof (intro allI impI)
    fix k' assume "k' < k"
    then have "k' * bs < i" using bs ik by simp
    with earlier have
      "\<not> challenge_met e key (determine_padding bs rbs) pw ch (block_at fp rbs (k' * bs))
       \<and> fits_buffer key (determine_padding bs rbs) bs pw (block_at fp rbs (k' * bs))"
      by simp
    then show "try_block e ?s (window ?s (contents fp) (0 + k' * block_size ?s))
             \<in> {Decrypt_failed, No_match}"
      using quiet_try_block [of e ?s "block_at fp rbs (k' * bs)"] by simp
  qed
  have "\<exists>tr'. find_block_slow_loop e ?s fp 0 [Ev_ftell (path fp)]
             = Some (tr', Returned ((0 + k * block_size ?s) div block_size ?s))
       \<and> seek_offsets tr' = seek_offsets [Ev_ftell (path fp)] @
            map (\<lambda>k'. end_of_header ?s + 0 + k' * block_size ?s) [0..<Suc k]"
    by (rule loop_finds [OF _ _ _ refl lt m q]) (use bs fit bs32 in simp_all)
  then obtain tr where
    r: "find_block_slow e fp fsz bs key rbs pw ch = Some (tr, Returned k)"
    and o: "seek_offsets tr = map (\<lambda>k'. pos fp + k' * bs) [0..<Suc k]"
    using bs by (auto simp: find_block_slow_def)
  have "sorted_wrt (<) (seek_offsets tr)"
    unfolding o by (rule sorted_offsets [OF bs])
  with r o show ?thesis unfolding k_def by blast
qed

text \<open>
  C1. For every file that ends below \<open>2 ^ 63\<close> and every block size below \<open>2 ^ 32\<close> (the
  sizes of real files and of an \<open>unsigned int\<close>), \<open>__find_block_slow\<close> returns the first
  match, in both directions.

  When it returns an index, that index is \<open>i / block_size\<close> for an offset \<open>i\<close> below
  \<open>file_size\<close> that is a multiple of \<open>block_size\<close> and whose window passes the acceptance
  test (it decrypts, and the challenge hash of the block hash of the decrypted bytes
  followed by the password equals the challenge of the header); no smaller multiple of
  \<open>block_size\<close> passes the test; and the offsets handed to \<open>fseek\<close> are the end of the
  header plus \<open>0\<close>, \<open>block_size\<close>, ..., \<open>i\<close>, in strictly increasing order.

  Conversely, when the block size is positive and \<open>i\<close> is the smallest multiple of
  \<open>block_size\<close> below \<open>file_size\<close> whose window passes the test, the scan does return, and
  it returns \<open>i / block_size\<close> after trying exactly the offsets up to \<open>i\<close>. Here the
  decrypted bytes of the windows up to \<open>i\<close> fit the buffer of line 76; a window whose
  decrypted bytes do not fit leaves the scan undefined.
\<close>

theorem find_block_slow_first_match:
  assumes fit: "pos fp + fsz \<le> 2 ^ 63" and bs32: "bs < 2 ^ 32"
  shows "(find_block_slow e fp fsz bs key rbs pw ch = Some (tr, Returned idx) \<longrightarrow>
          (\<exists>i. i < fsz \<and> bs dvd i \<and> idx = i div bs
            \<and> challenge_met e key (determine_padding bs rbs) pw ch (block_at fp rbs i)
            \<and> (\<forall>j<i. bs dvd j \<longrightarrow>
                  \<not> challenge_met e key (determine_padding bs rbs) pw ch (block_at fp rbs j))
            \<and> seek_offsets tr = map (\<lambda>k. pos fp + k * bs) [0..<Suc idx]
            \<and> sorted_wrt (<) (seek_offsets tr)))
       \<and> (0 < bs \<and> i' < fsz \<and> bs dvd i'
          \<and> challenge_met e key (determine_padding bs rbs) pw ch (block_at fp rbs i')
          \<and> fits_buffer key (determine_padding bs rbs) bs pw (block_at fp rbs i')
          \<and> (\<forall>j<i'. bs dvd j \<longrightarrow>
                \<not> challenge_met e key (determine_padding bs rbs) pw ch (block_at fp rbs j)
                \<and> fits_buffer key (determine_padding bs rbs) bs pw (block_at fp rbs j)) \<longrightarrow>
          (\<exists>tr'. find_block_slow e fp fsz bs key rbs pw ch = Some (tr', Returned (i' div bs))
            \<and> seek_offsets tr' = map (\<lambda>k. pos fp + k * bs) [0..<Suc (i' div bs)]
            \<and> sorted_wrt (<) (seek_offsets tr')))"
  using find_block_slow_returned [OF _ fit bs32, of e key rbs pw ch tr idx]
    find_block_slow_finds [OF fit bs32, of i' e key rbs pw ch]
  by blast

text \<open>
  The file \<open>enc\<close> of the test bed: blocks of 2 bytes, windows of 4, the key block at
  index 1. The window at offset 0 does not decrypt, the window at offset 2 passes the
  test, and the scan returns index 1.
\<close>

theorem find_block_slow_first_match_witness:
  "pos ex_enc + 11 \<le> 2 ^ 63 \<and> (2::nat) < 2 ^ 32
   \<and> find_block_slow ex_env ex_enc 11 2 ex_rsa 4 ex_password [242, 4] =
       Some ([Ev_ftell ''enc'', Ev_fseek ''enc'' 3, Ev_fread ''enc'' 4 4,
              Ev_RSA_private_decrypt RSA_PKCS1_OAEP_PADDING [1, 1, 9, 9],
              Ev_fseek ''enc'' 5, Ev_fread ''enc'' 4 4,
              Ev_RSA_private_decrypt RSA_PKCS1_OAEP_PADDING [9, 9, 9, 9]],
             Returned 1)
   \<and> (\<exists>i. i < 11 \<and> 2 dvd i \<and> (1::nat) = i div 2
      \<and> challenge_met ex_env ex_rsa (determine_padding 2 4) ex_password [242, 4]
           (block_at ex_enc 4 i)
      \<and> (\<forall>j<i. 2 dvd j \<longrightarrow>
            \<not> challenge_met ex_env ex_rsa (determine_padding 2 4) ex_password [242, 4]
                 (block_at ex_enc 4 j)))
   \<and> (0::nat) < 2 \<and> (2::nat) < 11 \<and> (2::nat) dvd 2
   \<and> challenge_met ex_env ex_rsa (determine_padding 2 4) ex_password [242, 4]
        (block_at ex_enc 4 2)
   \<and> fits_buffer ex_rsa (determine_padding 2 4) 2 ex_password (block_at ex_enc 4 2)
   \<and> \<not> challenge_met ex_env ex_rsa (determine_padding 2 4) ex_password [242, 4]
        (block_at ex_enc 4 0)
   \<and> fits_buffer ex_rsa (determine_padding 2 4) 2 ex_password (block_at ex_enc 4 0)
   \<and> (\<exists>tr'. find_block_slow ex_env ex_enc 11 2 ex_rsa 4 ex_password [242, 4]
               = Some (tr', Returned (2 div 2))
         \<and> seek_offsets tr' = map (\<lambda>k. pos ex_enc + k * 2) [0..<Suc (2 div 2)]
         \<and> sorted_wrt (<) (seek_offsets tr'))"
proof -
  have p: "pos ex_enc + 11 \<le> 2 ^ 63" by (simp add: ex_enc_def)
  have b: "(2::nat) < 2 ^ 32" by simp
  have n: "(0::nat) < 2" "(2::nat) < 11" "(2::nat) dvd 2" by simp_all
  have m2: "challenge_met ex_env ex_rsa (determine_padding 2 4) ex_password [242, 4]
        (block_at ex_enc 4 2)"
    and f2: "fits_buffer ex_rsa (determine_padding 2 4) 2 ex_password (block_at ex_enc 4 2)"
    and m0: "\<not> challenge_met ex_env ex_rsa (determine_padding 2 4) ex_password [242, 4]
        (block_at ex_enc 4 0)"
    and f0: "fits_buffer ex_rsa (determine_padding 2 4) 2 ex_password (block_at ex_enc 4 0)"
    by (simp_all add: challenge_met_def fits_buffer_def block_at_def ex_enc_def ex_rsa_def
          ex_env_def ex_hash_def ex_password_def determine_padding_def)
  have e: "\<forall>j<2. 2 dvd j \<longrightarrow>
        \<not> challenge_met ex_env ex_rsa (determine_padding 2 4) ex_password [242, 4]
             (block_at ex_enc 4 j)
        \<and> fits_buffer ex_rsa (determine_padding 2 4) 2 ex_password (block_at ex_enc 4 j)"
  proof (intro allI impI)
    fix j :: nat assume "j < 2" "2 dvd j"
    then have "j = 0" by presburger
    with m0 f0 show
      "\<not> challenge_met ex_env ex_rsa (determine_padding 2 4) ex_password [242, 4]
             (block_at ex_enc 4 j)
        \<and> fits_buffer ex_rsa (determine_padding 2 4) 2 ex_password (block_at ex_enc 4 j)"
      by simp
  qed
  note t = find_block_slow_first_match [OF p b, where e = ex_env and key = ex_rsa
      and rbs = 4 and pw = ex_password and ch = "[242, 4]" and i' = 2 and idx = 1
      and tr = "[Ev_ftell ''enc'', Ev_fseek ''enc'' 3, Ev_fread ''enc'' 4 4,
              Ev_RSA_private_decrypt RSA_PKCS1_OAEP_PADDING [1, 1, 9, 9],
              Ev_fseek ''enc'' 5, Ev_fread ''enc'' 4 4,
              Ev_RSA_private_decrypt RSA_PKCS1_OAEP_PADDING [9, 9, 9, 9]]"]
  from t ex_enc_run p b n m2 f2 m0 f0 e show ?thesis by blast
qed

subsection \<open>C2: an exhausted scan ends the process\<close>

text \<open>
  The specification says that an exhausted scan hands a typed failure back to the caller
  and that the locator never ends the process. On the file \<open>bad\<close>, whose challenge no window
  meets, \<open>__find_block_slow\<close> does not return: it prints its message and calls
  \<open>exit (1)\<close>.
\<close>

theorem find_block_slow_exits_counterexample:
  "find_block_slow ex_env ex_bad 7 2 ex_rsa 4 ex_password [243, 4] =
     Some ([Ev_ftell ''bad'', Ev_fseek ''bad'' 3, Ev_fread ''bad'' 4 4,
            Ev_RSA_private_decrypt RSA_PKCS1_OAEP_PADDING [9, 9, 9, 9],
            Ev_fseek ''bad'' 5, Ev_fread ''bad'' 4 2,
            Ev_RSA_private_decrypt RSA_PKCS1_OAEP_PADDING [9, 9],
            Ev_fseek ''bad'' 7, Ev_fread ''bad'' 4 0,
            Ev_RSA_private_decrypt RSA_PKCS1_OAEP_PADDING [],
            Ev_fseek ''bad'' 9, Ev_fread ''bad'' 4 0,
            Ev_RSA_private_decrypt RSA_PKCS1_OAEP_PADDING [],
            Ev_printf msg_not_found],
           Exited 1)"
  by (simp add: ex_defs ex_bad_def)

text \<open>
  C2, as the code has it. When the block size is positive and no offset below
  \<open>file_size\<close> that is a multiple of \<open>block_size\<close> passes the acceptance test (each
  decrypted block fitting the buffer), \<open>__find_block_slow\<close> tries every such offset,
  then prints \<open>[ERROR] RSA block could not be found.\<close> and ends the process with exit
  status 1 through \<open>_handle_simple_error\<close>; nothing is returned to the caller.
\<close>

theorem find_block_slow_exhausted:
  assumes bs: "0 < bs" and bs32: "bs < 2 ^ 32" and fit: "pos fp + fsz \<le> 2 ^ 63"
    and none: "\<forall>i<fsz. bs dvd i \<longrightarrow>
        \<not> challenge_met e key (determine_padding bs rbs) pw ch (block_at fp rbs i)
        \<and> fits_buffer key (determine_padding bs rbs) bs pw (block_at fp rbs i)"
  shows "\<exists>tr n. find_block_slow e fp fsz bs key rbs pw ch
                  = Some (tr @ [Ev_printf msg_not_found], Exited 1)
      \<and> seek_offsets tr = map (\<lambda>k. pos fp + k * bs) [0..<n]
      \<and> fsz \<le> n * bs \<and> (\<forall>k<n. k * bs < fsz)"
proof -
  let ?s = "init_scan fp fsz bs key rbs pw ch"
  have q: "\<forall>k. 0 + k * block_size ?s < file_size ?s \<longrightarrow>
          try_block e ?s (window ?s (contents fp) (0 + k * block_size ?s))
            \<in> {Decrypt_failed, No_match}"
  proof (intro allI impI)
    fix k assume "0 + k * block_size ?s < file_size ?s"
    then have "k * bs < fsz" by simp
    with none have
      "\<not> challenge_met e key (determine_padding bs rbs) pw ch (block_at fp rbs (k * bs))
       \<and> fits_buffer key (determine_padding bs rbs) bs pw (block_at fp rbs (k * bs))"
      by simp
    then show "try_block e ?s (window ?s (contents fp) (0 + k * block_size ?s))
            \<in> {Decrypt_failed, No_match}"
      using quiet_try_block [of e ?s "block_at fp rbs (k * bs)"] by simp
  qed
  have "\<exists>n tr'. find_block_slow_loop e ?s fp 0 [Ev_ftell (path fp)]
          = Some (tr' @ [Ev_printf msg_not_found], Exited 1)
       \<and> seek_offsets tr' = seek_offsets [Ev_ftell (path fp)] @
            map (\<lambda>k. end_of_header ?s + 0 + k * block_size ?s) [0..<n]
       \<and> file_size ?s \<le> 0 + n * block_size ?s
       \<and> (\<forall>k<n. 0 + k * block_size ?s < file_size ?s)"
    by (rule loop_exhausted [OF _ _ _ refl q]) (use bs bs32 fit in simp_all)
  then show ?thesis
    by (auto simp: find_block_slow_def)
qed

text \<open>
  The same file \<open>bad\<close>: none of the offsets 0, 2, 4 and 6 passes the test.
\<close>

theorem find_block_slow_exhausted_witness:
  "(0::nat) < 2 \<and> (2::nat) < 2 ^ 32 \<and> pos ex_bad + 7 \<le> 2 ^ 63
   \<and> \<not> challenge_met ex_env ex_rsa (determine_padding 2 4) ex_password [243, 4]
         (block_at ex_bad 4 0)
   \<and> \<not> challenge_met ex_env ex_rsa (determine_padding 2 4) ex_password [243, 4]
         (block_at ex_bad 4 2)
   \<and> \<not> challenge_met ex_env ex_rsa (determine_padding 2 4) ex_password [243, 4]
         (block_at ex_bad 4 4)
   \<and> \<not> challenge_met ex_env ex_rsa (determine_padding 2 4) ex_password [243, 4]
         (block_at ex_bad 4 6)
   \<and> fits_buffer ex_rsa (determine_padding 2 4) 2 ex_password (block_at ex_bad 4 0)
   \<and> fits_buffer ex_rsa (determine_padding 2 4) 2 ex_password (block_at ex_bad 4 2)
   \<and> fits_buffer ex_rsa (determine_padding 2 4) 2 ex_password (block_at ex_bad 4 4)
   \<and> fits_buffer ex_rsa (determine_padding 2 4) 2 ex_password (block_at ex_bad 4 6)
   \<and> (\<exists>tr n. find_block_slow ex_env ex_bad 7 2 ex_rsa 4 ex_password [243, 4]
                  = Some (tr @ [Ev_printf msg_not_found], Exited 1)
      \<and> seek_offsets tr = map (\<lambda>k. pos ex_bad + k * 2) [0..<n]
      \<and> 7 \<le> n * 2 \<and> (\<forall>k<n. k * 2 < 7))"
proof -
  have a: "(0::nat) < 2" and b: "(2::nat) < 2 ^ 32" by simp_all
  have c: "pos ex_bad + 7 \<le> 2 ^ 63" by (simp add: ex_bad_def)
  have d: "\<not> challenge_met ex_env ex_rsa (determine_padding 2 4) ex_password [243, 4]
         (block_at ex_bad 4 i)
      \<and> fits_buffer ex_rsa (determine_padding 2 4) 2 ex_password (block_at ex_bad 4 i)"
    if "i = 0 \<or> i = 2 \<or> i = 4 \<or> i = 6" for i
    using ex_bad_none that by auto
  from find_block_slow_exhausted [OF a b c ex_bad_none] a b c
    d [of 0] d [of 2] d [of 4] d [of 6]
  show ?thesis by simp
qed

subsection \<open>C3: a passed block index skips the header\<close>

text \<open>
  The specification says that the header is still parsed when a block index is passed, so
  that a truncated header still fails. The file \<open>empty\<close> has no header at all: with the
  index 5 passed, \<open>decrypt_file\<close> reads nothing from it and selects block 5; only without
  a passed index is the missing flag reported.
\<close>

theorem decrypt_file_override_skips_header_counterexample:
  "files ex_env ''empty'' = Some []
   \<and> decrypt_file ex_env ''empty'' ''out'' 2 ex_password ''key.pem'' ''secret'' 5
       = Some ([Ev_get_file_size ''empty'', Ev_RSA_new, Ev_fopen ''key.pem'',
                Ev_PEM_read_RSAPrivateKey ''key.pem'', Ev_fclose ''key.pem'', Ev_RSA_free],
               Returned 5)
   \<and> decrypt_file ex_env ''empty'' ''out'' 2 ex_password ''key.pem'' ''secret'' (- 1)
       = Some ([Ev_get_file_size ''empty'', Ev_RSA_new, Ev_fopen ''key.pem'',
                Ev_PEM_read_RSAPrivateKey ''key.pem'', Ev_fclose ''key.pem'',
                Ev_fopen ''empty'', Ev_fread ''empty'' 1 0, Ev_printf msg_fast_flag,
                Ev_RSA_free, Ev_BN_clear_free, Ev_printf msg_empty, Ev_fclose ''empty''],
               Exited 1)"
  by (simp add: run_defs ex_world ispowerof2.simps)

text \<open>
  C3, as the code has it. For every call of \<open>decrypt_file\<close> with a non-negative
  \<open>passed_block_index\<close> that gets past the block size check and the loading of the private
  key, that index is the selected block, unchanged, and zero scan iterations are performed;
  the header of the encrypted file is not parsed, so a truncated header goes unnoticed. The
  calls made are the size query on the encrypted file, the reading of the private key file
  and \<open>RSA_free\<close>: there is no \<open>fseek\<close>, no \<open>fread\<close> and no decryption.
\<close>

theorem decrypt_file_passed_index:
  assumes "0 \<le> passed_block_index" and "\<exists>k. bs = 2 ^ k"
    and "RSA_new_ok e" and "files e pk = Some pem"
    and "PEM_read_RSAPrivateKey e pem pp = Some key"
  shows "\<exists>tr. decrypt_file e enc dec bs pw pk pp passed_block_index
                = Some (tr, Returned (nat passed_block_index))
      \<and> int (nat passed_block_index) = passed_block_index
      \<and> tr = [Ev_get_file_size enc, Ev_RSA_new, Ev_fopen pk,
               Ev_PEM_read_RSAPrivateKey pk, Ev_fclose pk, Ev_RSA_free]
      \<and> seek_offsets tr = [] \<and> paddings tr = []
      \<and> (\<forall>p n m. Ev_fread p n m \<notin> set tr)"
  using assms by (simp add: run_defs ispowerof2_iff)

text \<open>
  The file \<open>enc\<close> with the index 5 passed: block 5 is selected although the file has only
  four blocks, and nothing is read from it.
\<close>

theorem decrypt_file_passed_index_witness:
  "(0::int) \<le> 5 \<and> (\<exists>k. (2::nat) = 2 ^ k) \<and> RSA_new_ok ex_env
   \<and> files ex_env ''key.pem'' = Some [45]
   \<and> PEM_read_RSAPrivateKey ex_env [45] ''secret'' = Some ex_rsa
   \<and> (\<exists>tr. decrypt_file ex_env ''enc'' ''out'' 2 ex_password ''key.pem'' ''secret'' 5
                = Some (tr, Returned (nat 5))
      \<and> int (nat 5) = 5
      \<and> tr = [Ev_get_file_size ''enc'', Ev_RSA_new, Ev_fopen ''key.pem'',
               Ev_PEM_read_RSAPrivateKey ''key.pem'', Ev_fclose ''key.pem'', Ev_RSA_free]
      \<and> seek_offsets tr = [] \<and> paddings tr = []
      \<and> (\<forall>p n m. Ev_fread p n m \<notin> set tr))"
proof -
  have a: "(0::int) \<le> 5" by simp
  have b: "\<exists>k. (2::nat) = 2 ^ k" by (rule exI [of _ 1]) simp
  have c: "RSA_new_ok ex_env" and d: "files ex_env ''key.pem'' = Some [45]"
    and f: "PEM_read_RSAPrivateKey ex_env [45] ''secret'' = Some ex_rsa"
    by (simp_all add: ex_world)
  from decrypt_file_passed_index [OF a b c d f, of "''enc''" "''out''" ex_password]
    a b c d f
  show ?thesis by blast
qed

subsection \<open>C4: the block size check comes after the file size query\<close>

text \<open>
  The specification says that a block size that is not a power of two is refused before any file
  is touched. With block size 3 the run ends at the check, but the first call of the trace
  is \<open>_get_file_size\<close> on the encrypted file: the initialiser of line 173 precedes the
  check of line 176.
\<close>

theorem decrypt_file_size_query_counterexample:
  "\<not> ispowerof2 3
   \<and> decrypt_file ex_env ''enc'' ''out'' 3 ex_password ''key.pem'' ''secret'' (- 1)
       = Some ([Ev_get_file_size ''enc'', Ev_printf (msg_block_size 3)], Exited 1)
   \<and> touches_file (Ev_get_file_size ''enc'')"
  by (simp add: run_defs ispowerof2.simps)

text \<open>
  C4, as the code has it. For every block size that is not a power of two,
  \<open>decrypt_file\<close> queries the size of the encrypted file with \<open>_get_file_size\<close>, prints
  the block size message and ends the process with exit status 1; it does nothing else:
  neither the private key file nor the encrypted file is opened or read.
\<close>

theorem decrypt_file_rejects_block_size:
  assumes "\<not> (\<exists>k. bs = 2 ^ k)"
  shows "decrypt_file e enc dec bs pw pk pp idx
           = Some ([Ev_get_file_size enc, Ev_printf (msg_block_size bs)], Exited 1)"
  using assms by (simp add: run_defs ispowerof2_iff)

theorem decrypt_file_rejects_block_size_witness:
  "\<not> (\<exists>k. (3::nat) = 2 ^ k)
   \<and> decrypt_file ex_env ''enc'' ''out'' 3 ex_password ''key.pem'' ''secret'' (- 1)
       = Some ([Ev_get_file_size ''enc'', Ev_printf (msg_block_size 3)], Exited 1)"
proof -
  have "\<not> ispowerof2 3" by (simp add: ispowerof2.simps)
  then have n: "\<not> (\<exists>k. (3::nat) = 2 ^ k)" by (simp add: ispowerof2_iff)
  from decrypt_file_rejects_block_size [OF n] n show ?thesis by blast
qed

subsection \<open>C5: the header reader\<close>

text \<open>
  C5. On an encrypted file that opens, \<open>_find_selected_block\<close> reads one byte for the
  flag, then \<open>_CHALLENGE_SIZE\<close> bytes for the challenge and, exactly when the flag is not
  zero, \<open>_AUTH_SIZE\<close> bytes for the auth tag. A short read of the flag, of the challenge
  or of the auth tag is reported with the message that names this field, the key is freed,
  the file is closed and the process exits with status 1; nothing is read after a short
  read. When nothing is short, the fast search gets the challenge and the auth tag, and
  the slow search gets the challenge and a cursor right after it, no auth tag being read.
\<close>

theorem header_reader:
  assumes opened: "files e enc = Some c"
  shows
   "(length c < 1 \<longrightarrow>
       find_selected_block e enc fsz bs key rbs pw
         = Some ([Ev_fopen enc, Ev_fread enc 1 0, Ev_printf msg_fast_flag, Ev_RSA_free,
                  Ev_BN_clear_free, Ev_printf msg_empty, Ev_fclose enc], Exited 1))
  \<and> (1 \<le> length c \<and> length c < 1 + CHALLENGE_SIZE e \<longrightarrow>
       find_selected_block e enc fsz bs key rbs pw
         = Some ([Ev_fopen enc, Ev_fread enc 1 1,
                  Ev_fread enc (CHALLENGE_SIZE e) (length c - 1), Ev_printf msg_challenge,
                  Ev_RSA_free, Ev_BN_clear_free, Ev_printf msg_empty, Ev_fclose enc],
                 Exited 1))
  \<and> (1 + CHALLENGE_SIZE e \<le> length c \<and> hd c \<noteq> 0
       \<and> length c < 1 + CHALLENGE_SIZE e + AUTH_SIZE e \<longrightarrow>
       find_selected_block e enc fsz bs key rbs pw
         = Some ([Ev_fopen enc, Ev_fread enc 1 1,
                  Ev_fread enc (CHALLENGE_SIZE e) (CHALLENGE_SIZE e),
                  Ev_fread enc (AUTH_SIZE e) (length c - 1 - CHALLENGE_SIZE e),
                  Ev_printf msg_auth, Ev_RSA_free, Ev_BN_clear_free, Ev_printf msg_empty,
                  Ev_fclose enc],
                 Exited 1))
  \<and> (1 + CHALLENGE_SIZE e + AUTH_SIZE e \<le> length c \<and> hd c \<noteq> 0 \<longrightarrow>
       find_selected_block e enc fsz bs key rbs pw
         = seq (call [Ev_fopen enc, Ev_fread enc 1 1,
                      Ev_fread enc (CHALLENGE_SIZE e) (CHALLENGE_SIZE e),
                      Ev_fread enc (AUTH_SIZE e) (AUTH_SIZE e)] ()) (\<lambda>_.
           seq (find_block_fast e
                  \<lparr>path = enc, contents = c, pos = 1 + CHALLENGE_SIZE e + AUTH_SIZE e\<rparr>
                  fsz bs key rbs pw (take (CHALLENGE_SIZE e) (drop 1 c))
                  (take (AUTH_SIZE e) (drop (1 + CHALLENGE_SIZE e) c))) (\<lambda>idx.
           call [Ev_fclose enc] idx)))
  \<and> (1 + CHALLENGE_SIZE e \<le> length c \<and> hd c = 0 \<longrightarrow>
       find_selected_block e enc fsz bs key rbs pw
         = seq (call [Ev_fopen enc, Ev_fread enc 1 1,
                      Ev_fread enc (CHALLENGE_SIZE e) (CHALLENGE_SIZE e)] ()) (\<lambda>_.
           seq (find_block_slow e \<lparr>path = enc, contents = c, pos = 1 + CHALLENGE_SIZE e\<rparr>
                  fsz bs key rbs pw (take (CHALLENGE_SIZE e) (drop 1 c))) (\<lambda>idx.
           call [Ev_fclose enc] idx)))"
proof (cases c)
  case Nil
  with opened show ?thesis
    by (simp add: find_selected_block_def read_basic_header_def fopen_def fread_def
          handle_file_action_error_def handle_RSA_error_def call_def skip_def)
next
  case (Cons x xs)
  have short: "length xs < CHALLENGE_SIZE e \<Longrightarrow> min (length xs) (CHALLENGE_SIZE e) = length xs"
    by simp
  show ?thesis
  proof (intro conjI impI)
    assume "length c < 1"
    with Cons show "find_selected_block e enc fsz bs key rbs pw
         = Some ([Ev_fopen enc, Ev_fread enc 1 0, Ev_printf msg_fast_flag, Ev_RSA_free,
                  Ev_BN_clear_free, Ev_printf msg_empty, Ev_fclose enc], Exited 1)"
      by simp
  next
    assume a: "1 \<le> length c \<and> length c < 1 + CHALLENGE_SIZE e"
    with Cons have m: "min (length xs) (CHALLENGE_SIZE e) = length xs" by simp
    from a Cons opened show "find_selected_block e enc fsz bs key rbs pw
         = Some ([Ev_fopen enc, Ev_fread enc 1 1,
                  Ev_fread enc (CHALLENGE_SIZE e) (length c - 1), Ev_printf msg_challenge,
                  Ev_RSA_free, Ev_BN_clear_free, Ev_printf msg_empty, Ev_fclose enc],
                 Exited 1)"
      by (simp add: find_selected_block_def read_basic_header_def fopen_def fread_def
          handle_file_action_error_def handle_RSA_error_def call_def skip_def m)
  next
    assume a: "1 + CHALLENGE_SIZE e \<le> length c \<and> hd c \<noteq> 0
       \<and> length c < 1 + CHALLENGE_SIZE e + AUTH_SIZE e"
    with Cons have m: "min (length xs) (CHALLENGE_SIZE e) = CHALLENGE_SIZE e"
      "min (length xs - CHALLENGE_SIZE e) (AUTH_SIZE e) = length xs - CHALLENGE_SIZE e"
      "length xs - CHALLENGE_SIZE e < AUTH_SIZE e"
      by auto
    from a Cons opened show "find_selected_block e enc fsz bs key rbs pw
         = Some ([Ev_fopen enc, Ev_fread enc 1 1,
                  Ev_fread enc (CHALLENGE_SIZE e) (CHALLENGE_SIZE e),
                  Ev_fread enc (AUTH_SIZE e) (length c - 1 - CHALLENGE_SIZE e),
                  Ev_printf msg_auth, Ev_RSA_free, Ev_BN_clear_free, Ev_printf msg_empty,
                  Ev_fclose enc],
                 Exited 1)"
      by (simp add: find_selected_block_def read_basic_header_def fopen_def fread_def
          handle_file_action_error_def handle_RSA_error_def call_def skip_def m)
  next
    assume a: "1 + CHALLENGE_SIZE e + AUTH_SIZE e \<le> length c \<and> hd c \<noteq> 0"
    with Cons have m: "min (length xs) (CHALLENGE_SIZE e) = CHALLENGE_SIZE e"
      "min (length xs - CHALLENGE_SIZE e) (AUTH_SIZE e) = AUTH_SIZE e"
      by auto
    from a Cons opened show "find_selected_block e enc fsz bs key rbs pw
         = seq (call [Ev_fopen enc, Ev_fread enc 1 1,
                      Ev_fread enc (CHALLENGE_SIZE e) (CHALLENGE_SIZE e),
                      Ev_fread enc (AUTH_SIZE e) (AUTH_SIZE e)] ()) (\<lambda>_.
           seq (find_block_fast e
                  \<lparr>path = enc, contents = c, pos = 1 + CHALLENGE_SIZE e + AUTH_SIZE e\<rparr>
                  fsz bs key rbs pw (take (CHALLENGE_SIZE e) (drop 1 c))
                  (take (AUTH_SIZE e) (drop (1 + CHALLENGE_SIZE e) c))) (\<lambda>idx.
           call [Ev_fclose enc] idx))"
      by (simp add: find_selected_block_def read_basic_header_def fopen_def fread_def
          handle_file_action_error_def handle_RSA_error_def call_def skip_def m
          find_block_fast_def)
  next
    assume a: "1 + CHALLENGE_SIZE e \<le> length c \<and> hd c = 0"
    with Cons have m: "min (length xs) (CHALLENGE_SIZE e) = CHALLENGE_SIZE e"
      by auto
    from a Cons opened show "find_selected_block e enc fsz bs key rbs pw
         = seq (call [Ev_fopen enc, Ev_fread enc 1 1,
                      Ev_fread enc (CHALLENGE_SIZE e) (CHALLENGE_SIZE e)] ()) (\<lambda>_.
           seq (find_block_slow e \<lparr>path = enc, contents = c, pos = 1 + CHALLENGE_SIZE e\<rparr>
                  fsz bs key rbs pw (take (CHALLENGE_SIZE e) (drop 1 c))) (\<lambda>idx.
           call [Ev_fclose enc] idx))"
      by (cases "find_block_slow e \<lparr>path = enc, contents = x # xs, pos = Suc (CHALLENGE_SIZE e)\<rparr>
                  fsz bs key rbs pw (take (CHALLENGE_SIZE e) xs)")
         (auto simp add: find_selected_block_def read_basic_header_def fopen_def fread_def
          handle_file_action_error_def handle_RSA_error_def call_def skip_def m
          seq_def split: outcome.splits)
  qed
qed

text \<open>
  The five cases on the files \<open>empty\<close>, \<open>short\<close>, \<open>fastshort\<close>, \<open>fast\<close> and
  \<open>enc\<close> of the test bed.
\<close>

theorem header_reader_witness:
  "files ex_env ''empty'' = Some []
   \<and> find_selected_block ex_env ''empty'' 0 2 ex_rsa 4 ex_password
       = Some ([Ev_fopen ''empty'', Ev_fread ''empty'' 1 0, Ev_printf msg_fast_flag,
                Ev_RSA_free, Ev_BN_clear_free, Ev_printf msg_empty, Ev_fclose ''empty''],
               Exited 1)
   \<and> files ex_env ''short'' = Some [0, 242]
   \<and> find_selected_block ex_env ''short'' 2 2 ex_rsa 4 ex_password
       = Some ([Ev_fopen ''short'', Ev_fread ''short'' 1 1, Ev_fread ''short'' 2 1,
                Ev_printf msg_challenge, Ev_RSA_free, Ev_BN_clear_free, Ev_printf msg_empty,
                Ev_fclose ''short''],
               Exited 1)
   \<and> files ex_env ''fastshort'' = Some [1, 242, 4, 7]
   \<and> find_selected_block ex_env ''fastshort'' 4 2 ex_rsa 4 ex_password
       = Some ([Ev_fopen ''fastshort'', Ev_fread ''fastshort'' 1 1,
                Ev_fread ''fastshort'' 2 2, Ev_fread ''fastshort'' 2 1, Ev_printf msg_auth,
                Ev_RSA_free, Ev_BN_clear_free, Ev_printf msg_empty, Ev_fclose ''fastshort''],
               Exited 1)
   \<and> files ex_env ''fast'' = Some [1, 242, 4, 7, 7]
   \<and> find_selected_block ex_env ''fast'' 5 2 ex_rsa 4 ex_password
       = Some ([Ev_fopen ''fast'', Ev_fread ''fast'' 1 1, Ev_fread ''fast'' 2 2,
                Ev_fread ''fast'' 2 2, Ev_fclose ''fast''],
               Returned 0)
   \<and> files ex_env ''enc'' = Some [0, 242, 4, 1, 1, 9, 9, 9, 9, 1, 1]
   \<and> find_selected_block ex_env ''enc'' 11 2 ex_rsa 4 ex_password
       = Some ([Ev_fopen ''enc'', Ev_fread ''enc'' 1 1, Ev_fread ''enc'' 2 2,
                Ev_ftell ''enc'', Ev_fseek ''enc'' 3, Ev_fread ''enc'' 4 4,
                Ev_RSA_private_decrypt RSA_PKCS1_OAEP_PADDING [1, 1, 9, 9],
                Ev_fseek ''enc'' 5, Ev_fread ''enc'' 4 4,
                Ev_RSA_private_decrypt RSA_PKCS1_OAEP_PADDING [9, 9, 9, 9],
                Ev_fclose ''enc''],
               Returned 1)"
proof -
  have f1: "files ex_env ''empty'' = Some []"
    and f2: "files ex_env ''short'' = Some [0, 242]"
    and f3: "files ex_env ''fastshort'' = Some [1, 242, 4, 7]"
    and f4: "files ex_env ''fast'' = Some [1, 242, 4, 7, 7]"
    and f5: "files ex_env ''enc'' = Some [0, 242, 4, 1, 1, 9, 9, 9, 9, 1, 1]"
    by (simp_all add: ex_world)
  have sizes: "CHALLENGE_SIZE ex_env = 2" "AUTH_SIZE ex_env = 2"
    by (simp_all add: ex_env_def)
  have c1: "find_selected_block ex_env ''empty'' 0 2 ex_rsa 4 ex_password
       = Some ([Ev_fopen ''empty'', Ev_fread ''empty'' 1 0, Ev_printf msg_fast_flag,
                Ev_RSA_free, Ev_BN_clear_free, Ev_printf msg_empty, Ev_fclose ''empty''],
               Exited 1)"
    using header_reader [OF f1, of 0 2 ex_rsa 4 ex_password] by simp
  have c2: "find_selected_block ex_env ''short'' 2 2 ex_rsa 4 ex_password
       = Some ([Ev_fopen ''short'', Ev_fread ''short'' 1 1, Ev_fread ''short'' 2 1,
                Ev_printf msg_challenge, Ev_RSA_free, Ev_BN_clear_free, Ev_printf msg_empty,
                Ev_fclose ''short''],
               Exited 1)"
    using header_reader [OF f2, of 2 2 ex_rsa 4 ex_password] by (simp add: sizes)
  have c3: "find_selected_block ex_env ''fastshort'' 4 2 ex_rsa 4 ex_password
       = Some ([Ev_fopen ''fastshort'', Ev_fread ''fastshort'' 1 1,
                Ev_fread ''fastshort'' 2 2, Ev_fread ''fastshort'' 2 1, Ev_printf msg_auth,
                Ev_RSA_free, Ev_BN_clear_free, Ev_printf msg_empty, Ev_fclose ''fastshort''],
               Exited 1)"
    using header_reader [OF f3, of 4 2 ex_rsa 4 ex_password] by (simp add: sizes)
  have c4: "find_selected_block ex_env ''fast'' 5 2 ex_rsa 4 ex_password
       = Some ([Ev_fopen ''fast'', Ev_fread ''fast'' 1 1, Ev_fread ''fast'' 2 2,
                Ev_fread ''fast'' 2 2, Ev_fclose ''fast''],
               Returned 0)"
    using header_reader [OF f4, of 5 2 ex_rsa 4 ex_password]
    by (simp add: sizes find_block_fast_def call_def)
  have run: "find_block_slow ex_env
      \<lparr>path = ''enc'', contents = [0, 242, 4, 1, 1, 9, 9, 9, 9, 1, 1],
         pos = Suc (Suc (Suc 0))\<rparr> 11 2 ex_rsa 4 ex_password [242, 4] =
     Some ([Ev_ftell ''enc'', Ev_fseek ''enc'' 3, Ev_fread ''enc'' 4 4,
            Ev_RSA_private_decrypt RSA_PKCS1_OAEP_PADDING [1, 1, 9, 9],
            Ev_fseek ''enc'' 5, Ev_fread ''enc'' 4 4,
            Ev_RSA_private_decrypt RSA_PKCS1_OAEP_PADDING [9, 9, 9, 9]],
           Returned 1)"
    using ex_enc_run by (simp add: ex_enc_def numeral_3_eq_3)
  have c5: "find_selected_block ex_env ''enc'' 11 2 ex_rsa 4 ex_password
       = Some ([Ev_fopen ''enc'', Ev_fread ''enc'' 1 1, Ev_fread ''enc'' 2 2,
                Ev_ftell ''enc'', Ev_fseek ''enc'' 3, Ev_fread ''enc'' 4 4,
                Ev_RSA_private_decrypt RSA_PKCS1_OAEP_PADDING [1, 1, 9, 9],
                Ev_fseek ''enc'' 5, Ev_fread ''enc'' 4 4,
                Ev_RSA_private_decrypt RSA_PKCS1_OAEP_PADDING [9, 9, 9, 9],
                Ev_fclose ''enc''],
               Returned 1)"
    using header_reader [OF f5, of 11 2 ex_rsa 4 ex_password] run
    by (simp add: sizes call_def)
  from f1 f2 f3 f4 f5 c1 c2 c3 c4 c5 show ?thesis by simp
qed

subsection \<open>C6: one padding for the whole scan\<close>



subsection \<open>C7: no check of the block size against the modulus\<close>




subsection \<open>C8: the exhausted scan releases nothing\<close>

text \<open>
  C8 fails on the path of an exhausted scan. On the file \<open>bad\<close> the run of
  \<open>decrypt_file\<close> ends in \<open>exit (1)\<close> inside \<open>__find_block_slow\<close> with no call of
  \<open>RSA_free\<close> and no \<open>fclose\<close> of the encrypted file, where the claim wants one of
  each. The sibling path of a truncated header (the file \<open>short\<close>) does release both
  before it exits.
\<close>

theorem not_found_releases_nothing:
  "decrypt_file ex_env ''bad'' ''out'' 2 ex_password ''key.pem'' ''secret'' (- 1)
     = Some ([Ev_get_file_size ''bad'', Ev_RSA_new, Ev_fopen ''key.pem'',
              Ev_PEM_read_RSAPrivateKey ''key.pem'', Ev_fclose ''key.pem'',
              Ev_fopen ''bad'', Ev_fread ''bad'' 1 1, Ev_fread ''bad'' 2 2,
              Ev_ftell ''bad'', Ev_fseek ''bad'' 3, Ev_fread ''bad'' 4 4,
              Ev_RSA_private_decrypt RSA_PKCS1_OAEP_PADDING [9, 9, 9, 9],
              Ev_fseek ''bad'' 5, Ev_fread ''bad'' 4 2,
              Ev_RSA_private_decrypt RSA_PKCS1_OAEP_PADDING [9, 9],
              Ev_fseek ''bad'' 7, Ev_fread ''bad'' 4 0,
              Ev_RSA_private_decrypt RSA_PKCS1_OAEP_PADDING [],
              Ev_fseek ''bad'' 9, Ev_fread ''bad'' 4 0,
              Ev_RSA_private_decrypt RSA_PKCS1_OAEP_PADDING [],
              Ev_printf msg_not_found],
             Exited 1)
   \<and> map_option (\<lambda>(tr, r). (count_list tr Ev_RSA_free, count_list tr (Ev_fclose ''bad'')))
        (decrypt_file ex_env ''bad'' ''out'' 2 ex_password ''key.pem'' ''secret'' (- 1))
       = Some (0, 0)
   \<and> map_option (\<lambda>(tr, r). (count_list tr Ev_RSA_free, count_list tr (Ev_fclose ''short'')))
        (decrypt_file ex_env ''short'' ''out'' 2 ex_password ''key.pem'' ''secret'' (- 1))
       = Some (1, 1)"
  by (simp add: run_defs ex_world ex_defs ispowerof2.simps)

subsection \<open>C9: the fast search is a stub\<close>

text \<open>
  C9 fails on every fast-mode file. \<open>__find_block_fast\<close> returns 0 whatever it is
  given, without looking at the auth tag; on the file \<open>fast\<close>, which has a header and
  no block at all, index 0 is returned where the claim wants the failure of an exhausted
  search.
\<close>

theorem find_block_fast_stub:
  "files ex_env ''fast'' = Some [1, 242, 4, 7, 7]
   \<and> find_selected_block ex_env ''fast'' 5 2 ex_rsa 4 ex_password
       = Some ([Ev_fopen ''fast'', Ev_fread ''fast'' 1 1, Ev_fread ''fast'' 2 2,
                Ev_fread ''fast'' 2 2, Ev_fclose ''fast''],
               Returned 0)
   \<and> find_block_fast e fp fsz bs key rbs pw ch auth = Some ([], Returned 0)"
  by (simp add: run_defs ex_world)

subsection \<open>C10: the decrypted block can overflow its buffer\<close>

text \<open>
  C10 fails under OAEP padding. With a modulus of 256 bytes, blocks of 16 bytes and the
  password \<open>pw\<close>, the buffer has 18 bytes; a window that decrypts to 100 bytes makes the
  loop store 102 bytes in it.
\<close>

theorem decrypted_block_overflow:
  "find_block_slow ex_env ex_long 259 16 ex_rsa_2048 256 ex_password [242, 4] =
     Some ([Ev_ftell ''long'', Ev_fseek ''long'' 3, Ev_fread ''long'' 256 256,
            Ev_RSA_private_decrypt RSA_PKCS1_OAEP_PADDING (replicate 256 1)],
           Undefined Buffer_overflow)
   \<and> RSA_private_decrypt ex_rsa_2048 RSA_PKCS1_OAEP_PADDING (replicate 256 1)
       = Some (replicate 100 0)
   \<and> bytes_written (init_scan ex_long 259 16 ex_rsa_2048 256 ex_password [242, 4])
        (replicate 100 0) = 102
   \<and> decrypted_block_capacity (init_scan ex_long 259 16 ex_rsa_2048 256 ex_password [242, 4])
       = 18"
  by (simp add: find_block_slow_def init_scan_def determine_padding_def
        find_block_slow_loop.simps fseek_def fread_def try_block_def ex_rsa_2048_def
        ex_password_def decrypted_block_capacity_def bytes_written_def Let_def ex_long_def)

end
